theory Spec2Isabelle
  imports Complex_Main
begin

section \<open>Pointwise model of the weak forms\<close>

text \<open>
  The script \<^verbatim>\<open>resistive_bdf2.py\<close> builds its weak forms with the form language of the
  finite element library.
  A form is a sum of integrals over cells (\<open>dx\<close>), interior facets (\<open>dS\<close>) and exterior
  facets (\<open>ds\<close>). The integration itself belongs to the library; what the script decides
  is the integrand. A form is therefore modelled by its three integrands, each a function
  of the data the library supplies at a quadrature point. Floating point numbers are
  modelled by the reals, except in the section on the time accounting in binary64.
\<close>

type_synonym vec = "real \<times> real"

definition vadd :: "vec \<Rightarrow> vec \<Rightarrow> vec" where
  "vadd a b = (fst a + fst b, snd a + snd b)"

definition vsub :: "vec \<Rightarrow> vec \<Rightarrow> vec" where
  "vsub a b = (fst a - fst b, snd a - snd b)"

definition smul :: "real \<Rightarrow> vec \<Rightarrow> vec" where
  "smul c a = (c * fst a, c * snd a)"

definition dot :: "vec \<Rightarrow> vec \<Rightarrow> real" where
  "dot a b = fst a * fst b + snd a * snd b"

definition comp :: "vec \<Rightarrow> nat \<Rightarrow> real" where
  \<comment> \<open>\<open>a[i]\<close> for \<open>i\<close> in 0, 1\<close>
  "comp a i = (if i = 0 then fst a else snd a)"

text \<open>A field at a point: its value and its two partial derivatives.\<close>

record samp =
  val :: vec
  d0 :: vec
  d1 :: vec

definition zero_samp :: samp where
  "zero_samp = \<lparr>val = (0, 0), d0 = (0, 0), d1 = (0, 0)\<rparr>"

definition samp_add :: "samp \<Rightarrow> samp \<Rightarrow> samp" where
  "samp_add a b = \<lparr>val = vadd (val a) (val b), d0 = vadd (d0 a) (d0 b), d1 = vadd (d1 a) (d1 b)\<rparr>"

definition samp_sub :: "samp \<Rightarrow> samp \<Rightarrow> samp" where
  "samp_sub a b = \<lparr>val = vsub (val a) (val b), d0 = vsub (d0 a) (d0 b), d1 = vsub (d1 a) (d1 b)\<rparr>"

definition samp_smul :: "real \<Rightarrow> samp \<Rightarrow> samp" where
  "samp_smul c a = \<lparr>val = smul c (val a), d0 = smul c (d0 a), d1 = smul c (d1 a)\<rparr>"

text \<open>
  The data at a quadrature point: the trial and the test function, the two history
  fields \<open>B0\<close> and \<open>B1\<close> the forms refer to (by reference: the form sees the value the
  field holds when the form is assembled), the coordinates, the time parameter \<open>g.t\<close> of
  the boundary data at assembly, the facet normal and the cell size.
\<close>

record pdata =
  trial :: samp
  test :: samp
  B0_at :: samp
  B1_at :: samp
  coord :: vec
  g_time :: real
  normal :: vec
  cell_size :: real

text \<open>On an interior facet every quantity has a value on each of the two sides.\<close>

datatype side = Plus | Minus

type_synonym fdata = "side \<Rightarrow> pdata"

record form =
  I_dx :: "pdata \<Rightarrow> real"
  I_dS :: "fdata \<Rightarrow> real"
  I_ds :: "pdata \<Rightarrow> real"

definition dx_of :: "(pdata \<Rightarrow> real) \<Rightarrow> form" where
  "dx_of e = \<lparr>I_dx = e, I_dS = (\<lambda>q. 0), I_ds = (\<lambda>p. 0)\<rparr>"

definition dS_of :: "(fdata \<Rightarrow> real) \<Rightarrow> form" where
  "dS_of e = \<lparr>I_dx = (\<lambda>p. 0), I_dS = e, I_ds = (\<lambda>p. 0)\<rparr>"

definition ds_of :: "(pdata \<Rightarrow> real) \<Rightarrow> form" where
  "ds_of e = \<lparr>I_dx = (\<lambda>p. 0), I_dS = (\<lambda>q. 0), I_ds = e\<rparr>"

definition form_add :: "form \<Rightarrow> form \<Rightarrow> form" where
  "form_add F G = \<lparr>I_dx = (\<lambda>p. I_dx F p + I_dx G p),
                   I_dS = (\<lambda>q. I_dS F q + I_dS G q),
                   I_ds = (\<lambda>p. I_ds F p + I_ds G p)\<rparr>"

definition form_smul :: "real \<Rightarrow> form \<Rightarrow> form" where
  "form_smul c F = \<lparr>I_dx = (\<lambda>p. c * I_dx F p),
                    I_dS = (\<lambda>q. c * I_dS F q),
                    I_ds = (\<lambda>p. c * I_ds F p)\<rparr>"

text \<open>Averages and jumps across an interior facet.\<close>

definition avg :: "(pdata \<Rightarrow> real) \<Rightarrow> fdata \<Rightarrow> real" where
  "avg e q = 0.5 * (e (q Plus) + e (q Minus))"

definition avg_v :: "(pdata \<Rightarrow> vec) \<Rightarrow> fdata \<Rightarrow> vec" where
  "avg_v e q = smul 0.5 (vadd (e (q Plus)) (e (q Minus)))"

definition jump :: "(pdata \<Rightarrow> vec) \<Rightarrow> fdata \<Rightarrow> vec" where
  "jump e q = vsub (e (q Plus)) (e (q Minus))"

subsection \<open>The module constants and the two helpers\<close>

definition C1 :: real where
  "C1 = 50.0"

definition eps :: real where
  \<comment> \<open>\<open>1.0e-4\<close>\<close>
  "eps = 1 / 10000"

definition Curl :: "samp \<Rightarrow> real" where
  \<comment> \<open>\<open>B[1].dx(0) - B[0].dx(1)\<close>\<close>
  "Curl B = snd (d0 B) - fst (d1 B)"

definition Cross :: "vec \<Rightarrow> vec \<Rightarrow> real" where
  \<comment> \<open>\<open>a[0]*b[1] - a[1]*b[0]\<close>\<close>
  "Cross a b = fst a * snd b - snd a * fst b"

definition divg :: "samp \<Rightarrow> real" where
  \<comment> \<open>\<open>div(B)\<close>\<close>
  "divg B = fst (d0 B) + snd (d1 B)"

definition grad :: "samp \<Rightarrow> nat \<Rightarrow> nat \<Rightarrow> real" where
  \<comment> \<open>\<open>grad(v)[i,j]\<close> is the derivative of component \<open>i\<close> in direction \<open>j\<close>\<close>
  "grad v i j = comp (if j = 0 then d0 v else d1 v) i"

definition inner_t :: "(nat \<Rightarrow> nat \<Rightarrow> real) \<Rightarrow> (nat \<Rightarrow> nat \<Rightarrow> real) \<Rightarrow> real" where
  \<comment> \<open>\<open>inner\<close> of two 2 by 2 tensors\<close>
  "inner_t a b = a 0 0 * b 0 0 + a 0 1 * b 0 1 + a 1 0 * b 1 0 + a 1 1 * b 1 1"

subsection \<open>BForm\<close>

text \<open>
  \<open>BForm(B,v,u,g,n,h)\<close> returns \<open>F1 + F2\<close>. \<open>F1\<close> is the advective part, \<open>F2\<close> the
  resistive part. The arguments are expressions: functions of the point data.
\<close>

definition BForm_F1 ::
  "(pdata \<Rightarrow> samp) \<Rightarrow> (pdata \<Rightarrow> samp) \<Rightarrow> (pdata \<Rightarrow> vec) \<Rightarrow> (pdata \<Rightarrow> vec) \<Rightarrow>
   (pdata \<Rightarrow> vec) \<Rightarrow> (pdata \<Rightarrow> real) \<Rightarrow> form" where
  "BForm_F1 B v u g n h =
    (let Fl = (\<lambda>p i j. comp (val (B p)) i * comp (u p) j - comp (val (B p)) j * comp (u p) i);
         un = (\<lambda>p. dot (u p) (n p));
         Bn = (\<lambda>p. dot (val (B p)) (n p));
         unp = (\<lambda>p. 0.5 * (un p + \<bar>un p\<bar>));
         unm = (\<lambda>p. 0.5 * (un p - \<bar>un p\<bar>));
         H = (\<lambda>q. vsub (vadd (smul (unp (q Plus)) (val (B (q Plus))))
                               (smul (unm (q Plus)) (val (B (q Minus)))))
                         (smul (dot (avg_v (\<lambda>p. val (B p)) q) (n (q Plus))) (u (q Plus))));
         Hb = (\<lambda>p. vsub (vadd (smul (unp p) (val (B p))) (smul (unm p) (g p)))
                          (smul (Bn p) (u p)))
     in form_add (form_add (form_add (form_add
          (dx_of (\<lambda>p. - inner_t (Fl p) (grad (v p))))
          (dx_of (\<lambda>p. dot (u p) (val (v p)) * divg (B p))))
          (dS_of (\<lambda>q. dot (H q) (jump (\<lambda>p. val (v p)) q))))
          (dS_of (\<lambda>q. - (2 * dot (avg_v u q) (avg_v (\<lambda>p. val (v p)) q) * avg Bn q))))
          (ds_of (\<lambda>p. dot (Hb p) (val (v p)))))"

definition BForm_F2 ::
  "(pdata \<Rightarrow> samp) \<Rightarrow> (pdata \<Rightarrow> samp) \<Rightarrow> (pdata \<Rightarrow> vec) \<Rightarrow> (pdata \<Rightarrow> vec) \<Rightarrow>
   (pdata \<Rightarrow> vec) \<Rightarrow> (pdata \<Rightarrow> real) \<Rightarrow> form" where
  "BForm_F2 B v u g n h =
    form_add (form_add (form_add (form_add (form_add (form_add
      (dx_of (\<lambda>p. eps * Curl (B p) * Curl (v p)))
      (dS_of (\<lambda>q. - (2 * avg (\<lambda>p. eps * Curl (B p)) q * avg (\<lambda>p. Cross (n p) (val (v p))) q))))
      (dS_of (\<lambda>q. - (2 * avg (\<lambda>p. eps * Curl (v p)) q * avg (\<lambda>p. Cross (n p) (val (B p))) q))))
      (ds_of (\<lambda>p. - (eps * Curl (B p) * Cross (n p) (val (v p))))))
      (ds_of (\<lambda>p. - (eps * Curl (v p) * Cross (n p) (vsub (val (B p)) (g p))))))
      (dS_of (\<lambda>q. (C1 * eps / avg h q) * avg (\<lambda>p. Cross (n p) (val (B p))) q
                     * avg (\<lambda>p. Cross (n p) (val (v p))) q)))
      (ds_of (\<lambda>p. (C1 * eps / h p) * Cross (n p) (vsub (val (B p)) (g p))
                     * Cross (n p) (val (v p))))"

definition BForm ::
  "(pdata \<Rightarrow> samp) \<Rightarrow> (pdata \<Rightarrow> samp) \<Rightarrow> (pdata \<Rightarrow> vec) \<Rightarrow> (pdata \<Rightarrow> vec) \<Rightarrow>
   (pdata \<Rightarrow> vec) \<Rightarrow> (pdata \<Rightarrow> real) \<Rightarrow> form" where
  "BForm B v u g n h = form_add (BForm_F1 B v u g n h) (BForm_F2 B v u g n h)"

subsection \<open>The reference flux of the specification\<close>

text \<open>
  The advective facet terms as the specification words them, with the upwind splitting
  written with \<open>max\<close> and \<open>min\<close>.
\<close>

definition spec_un_plus :: "(pdata \<Rightarrow> vec) \<Rightarrow> (pdata \<Rightarrow> vec) \<Rightarrow> pdata \<Rightarrow> real" where
  "spec_un_plus u n p = max (dot (u p) (n p)) 0"

definition spec_un_minus :: "(pdata \<Rightarrow> vec) \<Rightarrow> (pdata \<Rightarrow> vec) \<Rightarrow> pdata \<Rightarrow> real" where
  "spec_un_minus u n p = min (dot (u p) (n p)) 0"

definition spec_H :: "(pdata \<Rightarrow> samp) \<Rightarrow> (pdata \<Rightarrow> vec) \<Rightarrow> (pdata \<Rightarrow> vec) \<Rightarrow> fdata \<Rightarrow> vec" where
  "spec_H B u n q =
     vsub (vadd (smul (spec_un_plus u n (q Plus)) (val (B (q Plus))))
                (smul (spec_un_minus u n (q Plus)) (val (B (q Minus)))))
          (smul (dot (avg_v (\<lambda>p. val (B p)) q) (n (q Plus))) (u (q Plus)))"

definition spec_Hb ::
  "(pdata \<Rightarrow> samp) \<Rightarrow> (pdata \<Rightarrow> vec) \<Rightarrow> (pdata \<Rightarrow> vec) \<Rightarrow> (pdata \<Rightarrow> vec) \<Rightarrow> pdata \<Rightarrow> vec" where
  "spec_Hb B u g n p =
     vsub (vadd (smul (spec_un_plus u n p) (val (B p))) (smul (spec_un_minus u n p) (g p)))
          (smul (dot (val (B p)) (n p)) (u p))"

definition spec_adv_dS ::
  "(pdata \<Rightarrow> samp) \<Rightarrow> (pdata \<Rightarrow> samp) \<Rightarrow> (pdata \<Rightarrow> vec) \<Rightarrow> (pdata \<Rightarrow> vec) \<Rightarrow> fdata \<Rightarrow> real" where
  "spec_adv_dS B v u n q =
     dot (spec_H B u n q) (jump (\<lambda>p. val (v p)) q)
     - 2 * dot (avg_v u q) (avg_v (\<lambda>p. val (v p)) q) * avg (\<lambda>p. dot (val (B p)) (n p)) q"

definition spec_adv_ds ::
  "(pdata \<Rightarrow> samp) \<Rightarrow> (pdata \<Rightarrow> samp) \<Rightarrow> (pdata \<Rightarrow> vec) \<Rightarrow> (pdata \<Rightarrow> vec) \<Rightarrow> (pdata \<Rightarrow> vec) \<Rightarrow>
   pdata \<Rightarrow> real" where
  "spec_adv_ds B v u g n p = dot (spec_Hb B u g n p) (val (v p))"

definition spec_adv_dx ::
  "(pdata \<Rightarrow> samp) \<Rightarrow> (pdata \<Rightarrow> samp) \<Rightarrow> (pdata \<Rightarrow> vec) \<Rightarrow> pdata \<Rightarrow> real" where
  \<comment> \<open>the volume term \<open>-(B\<otimes>u - u\<otimes>B):\<nabla>v + (u\<cdot>v)(div B)\<close>\<close>
  "spec_adv_dx B v u p =
     - inner_t (\<lambda>i j. comp (val (B p)) i * comp (u p) j - comp (u p) i * comp (val (B p)) j)
               (grad (v p))
     + dot (u p) (val (v p)) * divg (B p)"

section \<open>The forms of the two time schemes\<close>

text \<open>
  \<open>lhs\<close> and \<open>rhs\<close> are the library's splitting of a form that is affine in the trial
  function: \<open>lhs\<close> is the part that depends on the trial function, \<open>rhs\<close> is minus the
  rest, so that \<open>F = 0\<close> is \<open>lhs F = rhs F\<close>.
\<close>

definition lhs :: "form \<Rightarrow> form" where
  "lhs F = \<lparr>I_dx = (\<lambda>p. I_dx F p - I_dx F (p\<lparr>trial := zero_samp\<rparr>)),
            I_dS = (\<lambda>q. I_dS F q - I_dS F (\<lambda>s. (q s)\<lparr>trial := zero_samp\<rparr>)),
            I_ds = (\<lambda>p. I_ds F p - I_ds F (p\<lparr>trial := zero_samp\<rparr>))\<rparr>"

definition rhs :: "form \<Rightarrow> form" where
  "rhs F = \<lparr>I_dx = (\<lambda>p. - I_dx F (p\<lparr>trial := zero_samp\<rparr>)),
            I_dS = (\<lambda>q. - I_dS F (\<lambda>s. (q s)\<lparr>trial := zero_samp\<rparr>)),
            I_ds = (\<lambda>p. - I_ds F (p\<lparr>trial := zero_samp\<rparr>))\<rparr>"

definition u_expr :: "pdata \<Rightarrow> vec" where
  \<comment> \<open>\<open>u = Expression(("-x[1]", "x[0]"))\<close>\<close>
  "u_expr p = (- snd (coord p), fst (coord p))"

definition ge :: "real \<Rightarrow> vec \<Rightarrow> vec" where
  \<comment> \<open>the exact solution \<open>ge\<close> at time \<open>tm\<close> and point \<open>xy\<close>\<close>
  "ge tm xy =
    (4.0 * (- snd xy + 0.5 * sin tm)
       * exp (- 20 * (fst xy * fst xy + snd xy * snd xy
                       - (fst xy * cos tm + snd xy * sin tm) + 0.25)),
     4.0 * (fst xy - 0.5 * cos tm)
       * exp (- 20 * (fst xy * fst xy + snd xy * snd xy
                       - (fst xy * cos tm + snd xy * sin tm) + 0.25)))"

definition g_expr :: "pdata \<Rightarrow> vec" where
  \<comment> \<open>\<open>g = Expression(ge, t=...)\<close>: evaluated with the value \<open>g.t\<close> has at assembly\<close>
  "g_expr p = ge (g_time p) (coord p)"

definition F1_form :: "real \<Rightarrow> form" where
  \<comment> \<open>\<open>F1 = inner(B-B0,v)*dx + dt*BForm(B,v,u,g,n,h)\<close>\<close>
  "F1_form dt =
     form_add (dx_of (\<lambda>p. dot (val (samp_sub (trial p) (B0_at p))) (val (test p))))
              (form_smul dt (BForm trial test u_expr g_expr normal cell_size))"

definition F_form :: "real \<Rightarrow> form" where
  \<comment> \<open>\<open>F = inner(B-(4.0/3.0)*B1+(1.0/3.0)*B0,v)*dx + (2.0/3.0)*dt*BForm(B,v,u,g,n,h)\<close>\<close>
  "F_form dt =
     form_add (dx_of (\<lambda>p. dot (val (samp_add (samp_sub (trial p) (samp_smul (4.0 / 3.0) (B1_at p)))
                                            (samp_smul (1.0 / 3.0) (B0_at p))))
                            (val (test p))))
              (form_smul ((2.0 / 3.0) * dt) (BForm trial test u_expr g_expr normal cell_size))"

text \<open>
  The two schemes as the specification words them: the implicit Euler equation
  \<open>(B1 - B0)/dt + BForm(B1,\<cdot>) = 0\<close> and the BDF2 form
  \<open>inner(B - 4/3 B1 + 1/3 B0, v) + (2/3) dt BForm(B,v,u,g,n,h)\<close>, integrand by integrand.
\<close>

definition spec_euler_form :: "real \<Rightarrow> form" where
  "spec_euler_form dt =
    \<lparr>I_dx = (\<lambda>p. dot (smul (1 / dt) (vsub (val (trial p)) (val (B0_at p)))) (val (test p))
                   + I_dx (BForm trial test u_expr g_expr normal cell_size) p),
      I_dS = I_dS (BForm trial test u_expr g_expr normal cell_size),
      I_ds = I_ds (BForm trial test u_expr g_expr normal cell_size)\<rparr>"

definition spec_bdf2_form :: "real \<Rightarrow> form" where
  "spec_bdf2_form dt =
    \<lparr>I_dx = (\<lambda>p. dot (vadd (vsub (val (trial p)) (smul (4 / 3) (val (B1_at p))))
                               (smul (1 / 3) (val (B0_at p))))
                         (val (test p))
                   + (2 / 3) * dt * I_dx (BForm trial test u_expr g_expr normal cell_size) p),
      I_dS = (\<lambda>q. (2 / 3) * dt * I_dS (BForm trial test u_expr g_expr normal cell_size) q),
      I_ds = (\<lambda>p. (2 / 3) * dt * I_ds (BForm trial test u_expr g_expr normal cell_size) p)\<rparr>"

section \<open>The time integrator\<close>

text \<open>
  The finite element library is a parameter: one record of operations for each function
  space (polynomial degree and number of cells per side). Fields, matrices and vectors
  are values of the abstract types \<open>'v\<close>, \<open>'m\<close> and \<open>'b\<close>. An operation that reads the
  fields \<open>B0\<close> and \<open>B1\<close> and the time \<open>g.t\<close> through a form takes their current values.
\<close>

datatype py_error = ZeroDivisionError | ValueError | ArgumentError

record ('v, 'm, 'b) library =
  lib_Function :: 'v
  lib_interpolate :: "real \<Rightarrow> 'v"
  lib_solve :: "form \<Rightarrow> form \<Rightarrow> 'v \<Rightarrow> 'v \<Rightarrow> real \<Rightarrow> 'v"
  lib_assemble_matrix :: "form \<Rightarrow> 'v \<Rightarrow> 'v \<Rightarrow> real \<Rightarrow> 'm"
  lib_assemble_vector :: "form \<Rightarrow> 'v \<Rightarrow> 'v \<Rightarrow> real \<Rightarrow> 'b"
  lib_lu_solve :: "'m \<Rightarrow> 'b \<Rightarrow> 'v"
  lib_errornorm :: "real \<Rightarrow> 'v \<Rightarrow> real"
  lib_assemble_div2 :: "'v \<Rightarrow> real"

text \<open>
  The calls into the library that build or solve a linear system are logged:
  \<open>solve(a1 == L1, B1)\<close>, \<open>assemble(a, tensor=A)\<close>, \<open>LUSolver(A)\<close>, the setting of
  \<open>reuse_factorization\<close>, \<open>assemble(L)\<close> and \<open>solver.solve(B2.vector(), b)\<close>.
\<close>

datatype event =
    Ev_solve form form
  | Ev_assemble_matrix form
  | Ev_LUSolver
  | Ev_reuse_factorization bool
  | Ev_assemble_vector form
  | Ev_lu_solve

text \<open>
  The mutable objects of \<open>solve_induction\<close>: the three fields, the time parameter of the
  boundary data, the counters, the snapshots appended to \<open>sol.pvd\<close> and the log.
\<close>

record 'v state =
  B0 :: 'v
  B1 :: 'v
  B2 :: 'v
  g_t :: real
  it :: int
  t :: real
  fsol :: "'v list"
  calls :: "event list"

definition T :: real where
  "T = 0.5 * pi"

definition py_int :: "real \<Rightarrow> int" where
  \<comment> \<open>\<open>int(x)\<close> truncates towards zero\<close>
  "py_int r = (if 0 \<le> r then \<lfloor>r\<rfloor> else \<lceil>r\<rceil>)"

definition N_steps :: "int \<Rightarrow> int" where
  \<comment> \<open>\<open>h = 2.0/np; dt = 0.5 * h; N = int(T/dt)\<close>\<close>
  "N_steps np = (let h = 2.0 / real_of_int np; dt = 0.5 * h in py_int (T / dt))"

definition dt_of :: "int \<Rightarrow> real" where
  \<comment> \<open>\<open>dt = T/N\<close>\<close>
  "dt_of np = T / real_of_int (N_steps np)"

definition initial_state :: "('v, 'm, 'b) library \<Rightarrow> 'v state" where
  \<comment> \<open>the fields are created, \<open>B0\<close> is interpolated, \<open>B2.assign(B0)\<close>, \<open>fsol << B2\<close>\<close>
  "initial_state K =
    (let s0 = \<lparr>B0 = lib_interpolate K 0.0, B1 = lib_Function K, B2 = lib_Function K,
                g_t = 0.0, it = 0, t = 0.0, fsol = [], calls = []\<rparr>;
         s1 = s0\<lparr>B2 := B0 s0\<rparr>
     in s1\<lparr>fsol := fsol s1 @ [B2 s1]\<rparr>)"

definition bootstrap :: "('v, 'm, 'b) library \<Rightarrow> real \<Rightarrow> 'v state \<Rightarrow> 'v state" where
  \<comment> \<open>the first time step\<close>
  "bootstrap K dt s =
    (let s1 = s\<lparr>g_t := dt\<rparr>;
         F1 = F1_form dt;
         a1 = lhs F1;
         L1 = rhs F1;
         s2 = s1\<lparr>B1 := lib_solve K a1 L1 (B0 s1) (B1 s1) (g_t s1),
                 calls := calls s1 @ [Ev_solve a1 L1]\<rparr>
     in s2\<lparr>it := it s2 + 1, t := t s2 + dt\<rparr>)"

definition begin_steady :: "('v, 'm, 'b) library \<Rightarrow> form \<Rightarrow> 'v state \<Rightarrow> 'm \<times> 'v state" where
  \<comment> \<open>\<open>A = PETScMatrix(); assemble(a, tensor=A); solver = LUSolver(A)\<close> and its parameter\<close>
  "begin_steady K a s =
     (lib_assemble_matrix K a (B0 s) (B1 s) (g_t s),
      s\<lparr>calls := calls s @ [Ev_assemble_matrix a, Ev_LUSolver, Ev_reuse_factorization True]\<rparr>)"

definition steady_step ::
  "('v, 'm, 'b) library \<Rightarrow> 'm \<Rightarrow> int \<Rightarrow> real \<Rightarrow> form \<Rightarrow> 'v state \<Rightarrow> py_error + 'v state" where
  \<comment> \<open>the body of the loop; \<open>it%itsave\<close> raises when \<open>itsave\<close> is 0\<close>
  "steady_step K A itsave dt L s =
    (let s1 = s\<lparr>g_t := t s + dt\<rparr>;
         b = lib_assemble_vector K L (B0 s1) (B1 s1) (g_t s1);
         s2 = s1\<lparr>B2 := lib_lu_solve K A b,
                 calls := calls s1 @ [Ev_assemble_vector L, Ev_lu_solve]\<rparr>;
         s3 = s2\<lparr>B0 := B1 s2\<rparr>;
         s4 = s3\<lparr>B1 := B2 s3\<rparr>;
         s5 = s4\<lparr>it := it s4 + 1, t := t s4 + dt\<rparr>
     in if itsave = 0 then Inl ZeroDivisionError
        else if it s5 mod itsave = 0 then Inr (s5\<lparr>fsol := fsol s5 @ [B2 s5]\<rparr>)
        else Inr s5)"

text \<open>
  \<open>while t < T\<close>: the loop need not end, so its result is optional. The times \<open>t\<close>,
  \<open>dt\<close> and \<open>T\<close> of this loop are real numbers: it follows the program in exact
  arithmetic, where the loop is left after \<open>N - 1\<close> steps. The program adds doubles, and
  the rounding can keep \<open>t\<close> below \<open>T\<close> for one more step; the time accounting in binary64
  is followed in a section of its own below.
\<close>

partial_function (option) steady_loop ::
  "('v, 'm, 'b) library \<Rightarrow> 'm \<Rightarrow> int \<Rightarrow> real \<Rightarrow> form \<Rightarrow> 'v state \<Rightarrow> (py_error + 'v state) option" where
  "steady_loop K A itsave dt L s =
    (if t s < T
     then (case steady_step K A itsave dt L s of
             Inl e \<Rightarrow> Some (Inl e)
           | Inr s' \<Rightarrow> steady_loop K A itsave dt L s')
     else Some (Inr s))"

text \<open>
  \<open>solve_induction\<close> up to the end of the loop, returning the final state. \<open>2.0/np\<close>
  raises for \<open>np = 0\<close> and \<open>T/N\<close> for \<open>N = 0\<close>.
\<close>

definition time_stepping ::
  "(int \<Rightarrow> int \<Rightarrow> ('v, 'm, 'b) library) \<Rightarrow> int \<Rightarrow> int \<Rightarrow> int \<Rightarrow> (py_error + 'v state) option" where
  "time_stepping fem degree np itsave =
    (let K = fem degree np;
         s0 = initial_state K
     in if np = 0 then Some (Inl ZeroDivisionError)
        else if N_steps np = 0 then Some (Inl ZeroDivisionError)
        else
          (let dt = dt_of np;
               s1 = bootstrap K dt s0;
               F = F_form dt;
               a = lhs F;
               L = rhs F;
               (A, s2) = begin_steady K a s1
           in steady_loop K A itsave dt L s2))"

definition solve_induction ::
  "(int \<Rightarrow> int \<Rightarrow> ('v, 'm, 'b) library) \<Rightarrow> int \<Rightarrow> int \<Rightarrow> int \<Rightarrow> (py_error + real \<times> real) option" where
  \<comment> \<open>returns \<open>(div_l2, err_l2)\<close>; the error field written to \<open>Berr.pvd\<close> is left out\<close>
  "solve_induction fem degree np itsave =
    (case time_stepping fem degree np itsave of
       None \<Rightarrow> None
     | Some (Inl e) \<Rightarrow> Some (Inl e)
     | Some (Inr s) \<Rightarrow>
         (let K = fem degree np;
              err_l2 = lib_errornorm K (t s) (B2 s);
              div_l2 = sqrt (lib_assemble_div2 K (B2 s))
          in Some (Inr (div_l2, err_l2))))"

definition snapshot_count ::
  "(int \<Rightarrow> int \<Rightarrow> ('v, 'm, 'b) library) \<Rightarrow> int \<Rightarrow> int \<Rightarrow> int \<Rightarrow> (py_error + nat) option" where
  \<comment> \<open>the number of snapshots in \<open>sol.pvd\<close> at the end of the loop\<close>
  "snapshot_count fem degree np itsave =
    (case time_stepping fem degree np itsave of
       None \<Rightarrow> None
     | Some (Inl e) \<Rightarrow> Some (Inl e)
     | Some (Inr s) \<Rightarrow> Some (Inr (length (fsol s))))"

text \<open>One steady step that does not raise, as a function on states, and counting in the log.\<close>

definition advance ::
  "('v, 'm, 'b) library \<Rightarrow> 'm \<Rightarrow> int \<Rightarrow> real \<Rightarrow> form \<Rightarrow> 'v state \<Rightarrow> 'v state" where
  "advance K A itsave dt L s = (case steady_step K A itsave dt L s of Inl e \<Rightarrow> s | Inr s' \<Rightarrow> s')"

fun is_solve :: "event \<Rightarrow> bool" where
  "is_solve (Ev_solve a L) = True"
| "is_solve e = False"




fun is_lu_solve :: "event \<Rightarrow> bool" where
  "is_lu_solve Ev_lu_solve = True"
| "is_lu_solve e = False"

definition count :: "(event \<Rightarrow> bool) \<Rightarrow> event list \<Rightarrow> nat" where
  "count P es = length (filter P es)"

text \<open>A library whose every operation returns a constant, for runs on concrete inputs.\<close>

definition const_fem :: "int \<Rightarrow> int \<Rightarrow> (real, real, real) library" where
  "const_fem degree np =
    \<lparr>lib_Function = 0, lib_interpolate = (\<lambda>tm. 1), lib_solve = (\<lambda>a L b0 b1 tm. 1),
     lib_assemble_matrix = (\<lambda>a b0 b1 tm. 1), lib_assemble_vector = (\<lambda>L b0 b1 tm. 1),
     lib_lu_solve = (\<lambda>A b. 1), lib_errornorm = (\<lambda>tm b. 1), lib_assemble_div2 = (\<lambda>b. 1)\<rparr>"

section \<open>The convergence driver\<close>

definition save_interval :: "int option \<Rightarrow> int" where
  \<comment> \<open>the option \<open>-s\<close>, \<open>default=1000000\<close>\<close>
  "save_interval s = (case s of None \<Rightarrow> 1000000 | Some v \<Rightarrow> v)"

text \<open>The loop over the resolutions, in order; the first failing run ends the program.\<close>

fun sweep ::
  "(int \<Rightarrow> int \<Rightarrow> ('v, 'm, 'b) library) \<Rightarrow> int \<Rightarrow> int list \<Rightarrow> int \<Rightarrow> (py_error + (real \<times> real) list) option" where
  "sweep fem degree [] itsave = Some (Inr [])"
| "sweep fem degree (np # nps) itsave =
    (case solve_induction fem degree np itsave of
       None \<Rightarrow> None
     | Some (Inl e) \<Rightarrow> Some (Inl e)
     | Some (Inr r) \<Rightarrow>
         (case sweep fem degree nps itsave of
            None \<Rightarrow> None
          | Some (Inl e) \<Rightarrow> Some (Inl e)
          | Some (Inr rs) \<Rightarrow> Some (Inr (r # rs))))"

text \<open>
  \<open>math.log(rt)/math.log(2)\<close> with \<open>rt = a/b\<close>. The quotient of two array entries does not
  raise when \<open>b\<close> is zero: it is infinite or not a number, and so is the rate, unless the
  quotient is minus infinity. \<open>math.log\<close> raises on an argument that is not positive.
\<close>

datatype rate = Rate real | Not_finite

definition rate_of :: "real \<Rightarrow> real \<Rightarrow> py_error + rate" where
  "rate_of a b =
    (if b = 0 then (if a < 0 then Inl ValueError else Inr Not_finite)
     else (let rt = a / b in if rt \<le> 0 then Inl ValueError else Inr (Rate (ln rt / ln 2))))"

definition rate_pair :: "(real \<times> real) list \<Rightarrow> nat \<Rightarrow> py_error + rate \<times> rate" where
  \<comment> \<open>a record is \<open>(div_l2[m], err_l2[m])\<close>; the pair printed is \<open>p, q\<close>\<close>
  "rate_pair recs m =
    (case rate_of (snd (recs ! m)) (snd (recs ! (m + 1))) of
       Inl e \<Rightarrow> Inl e
     | Inr p \<Rightarrow>
         (case rate_of (fst (recs ! m)) (fst (recs ! (m + 1))) of
            Inl e \<Rightarrow> Inl e
          | Inr q \<Rightarrow> Inr (p, q)))"

fun collect :: "(py_error + 'a) list \<Rightarrow> py_error + 'a list" where
  "collect [] = Inr []"
| "collect (x # xs) =
    (case x of
       Inl e \<Rightarrow> Inl e
     | Inr y \<Rightarrow> (case collect xs of Inl e \<Rightarrow> Inl e | Inr ys \<Rightarrow> Inr (y # ys)))"

definition rates_of :: "(real \<times> real) list \<Rightarrow> py_error + (rate \<times> rate) list" where
  \<comment> \<open>\<open>for m in range(len(args.N)-1)\<close>\<close>
  "rates_of recs = collect (map (rate_pair recs) [0..<length recs - 1])"

definition main ::
  "(int \<Rightarrow> int \<Rightarrow> ('v, 'm, 'b) library) \<Rightarrow> int \<Rightarrow> int list \<Rightarrow> int option \<Rightarrow>
   (py_error + (real \<times> real) list \<times> (rate \<times> rate) list) option" where
  \<comment> \<open>\<open>-N\<close> takes one or more values: an empty list is rejected by the argument parser\<close>
  "main fem degree Ns s =
    (if Ns = [] then Some (Inl ArgumentError)
     else (case sweep fem degree Ns (save_interval s) of
             None \<Rightarrow> None
           | Some (Inl e) \<Rightarrow> Some (Inl e)
           | Some (Inr recs) \<Rightarrow>
               (case rates_of recs of
                  Inl e \<Rightarrow> Some (Inl e)
                | Inr rates \<Rightarrow> Some (Inr (recs, rates)))))"

section \<open>The time accounting in binary64\<close>

text \<open>
  The program computes its times with doubles. This section follows the lines of
  \<open>solve_induction\<close> that compute \<open>T\<close>, \<open>N\<close>, \<open>dt\<close>, \<open>it\<close> and \<open>t\<close> with every
  arithmetic operation rounded to the nearest binary64 number, ties to even. A double is
  modelled by the real number it denotes; the rounding is that of the normal range
  (53 significant bits, no overflow and no subnormal numbers), in which all times of the
  program lie.
\<close>

definition rne :: "real \<Rightarrow> int" where
  \<comment> \<open>the nearest integer, a tie going to the even one\<close>
  "rne x = (let f = \<lfloor>x\<rfloor>; r = x - of_int f
            in if r < 1 / 2 then f else if 1 / 2 < r then f + 1
               else if even f then f else f + 1)"

definition b64 :: "real \<Rightarrow> real" where
  \<comment> \<open>the nearest number with 53 significant bits\<close>
  "b64 x = (if x = 0 then 0
            else (let e = \<lfloor>log 2 \<bar>x\<bar>\<rfloor> - 52
                  in of_int (rne (x / 2 powi e)) * 2 powi e))"

definition fadd :: "real \<Rightarrow> real \<Rightarrow> real" where
  "fadd a b = b64 (a + b)"

definition fmul :: "real \<Rightarrow> real \<Rightarrow> real" where
  "fmul a b = b64 (a * b)"

definition fdiv :: "real \<Rightarrow> real \<Rightarrow> real" where
  "fdiv a b = b64 (a / b)"

definition pi_double :: real where
  \<comment> \<open>the constant \<open>pi\<close> of the library, the double 3.141592653589793\<close>
  "pi_double = 884279719003555 / 2 ^ 48"

definition T_double :: real where
  \<comment> \<open>\<open>T = 0.5*pi\<close>\<close>
  "T_double = fmul 0.5 pi_double"

definition fl_N_steps :: "int \<Rightarrow> int" where
  \<comment> \<open>\<open>h = 2.0/np; dt = 0.5 * h; N = int(T/dt)\<close>\<close>
  "fl_N_steps np = (let h = fdiv 2.0 (b64 (real_of_int np)); dt = fmul 0.5 h
                    in py_int (fdiv T_double dt))"

definition fl_dt_of :: "int \<Rightarrow> real" where
  \<comment> \<open>\<open>dt = T/N\<close>\<close>
  "fl_dt_of np = fdiv T_double (b64 (real_of_int (fl_N_steps np)))"

text \<open>The loop \<open>while t < T\<close> on the pair of \<open>it\<close> and \<open>t\<close>: \<open>it += 1; t += dt\<close>.\<close>

partial_function (option) fl_loop :: "real \<Rightarrow> int \<times> real \<Rightarrow> (int \<times> real) option" where
  "fl_loop dt st =
    (if snd st < T_double then fl_loop dt (fst st + 1, fadd (snd st) dt) else Some st)"

definition fl_time_stepping :: "int \<Rightarrow> (py_error + int \<times> real) option" where
  \<comment> \<open>\<open>it, t = 0, 0.0\<close>, the first step's \<open>it += 1; t += dt\<close>, then the loop\<close>
  "fl_time_stepping np =
    (if np = 0 then Some (Inl ZeroDivisionError)
     else if fl_N_steps np = 0 then Some (Inl ZeroDivisionError)
     else (let dt = fl_dt_of np;
               st0 = (0, 0.0);
               st1 = (fst st0 + 1, fadd (snd st0) dt)
           in map_option Inr (fl_loop dt st1)))"

section \<open>Lemmas about the forms\<close>

lemma upwind_plus: "0.5 * (a + \<bar>a\<bar>) = max a (0::real)"
  by (simp add: max_def abs_if)

lemma upwind_minus: "0.5 * (a - \<bar>a\<bar>) = min a (0::real)"
  by (simp add: min_def abs_if)

lemma upwind_plus_half: "(a + \<bar>a\<bar>) / 2 = max a (0::real)"
  by (simp add: max_def abs_if)

lemma upwind_minus_half: "(a - \<bar>a\<bar>) / 2 = min a (0::real)"
  by (simp add: min_def abs_if)

lemma I_dS_form_add: "I_dS (form_add F G) q = I_dS F q + I_dS G q"
  by (simp add: form_add_def)

lemma I_ds_form_add: "I_ds (form_add F G) p = I_ds F p + I_ds G p"
  by (simp add: form_add_def)

lemma I_dx_form_add: "I_dx (form_add F G) p = I_dx F p + I_dx G p"
  by (simp add: form_add_def)

lemma BForm_F1_dS: "I_dS (BForm_F1 B v u g n h) q = spec_adv_dS B v u n q"
  by (simp add: BForm_F1_def Let_def form_add_def dx_of_def dS_of_def ds_of_def
      spec_adv_dS_def spec_H_def spec_un_plus_def spec_un_minus_def
      upwind_plus_half upwind_minus_half)

lemma BForm_F1_ds: "I_ds (BForm_F1 B v u g n h) p = spec_adv_ds B v u g n p"
  by (simp add: BForm_F1_def Let_def form_add_def dx_of_def dS_of_def ds_of_def
      spec_adv_ds_def spec_Hb_def spec_un_plus_def spec_un_minus_def
      upwind_plus_half upwind_minus_half)

lemma BForm_F1_dx: "I_dx (BForm_F1 B v u g n h) p = spec_adv_dx B v u p"
  by (simp add: BForm_F1_def Let_def form_add_def dx_of_def dS_of_def ds_of_def
      spec_adv_dx_def inner_t_def mult.commute)

lemma lhs_eq_rhs:
  "(I_dx (lhs F) p = I_dx (rhs F) p) = (I_dx F p = 0)"
  "(I_dS (lhs F) q = I_dS (rhs F) q) = (I_dS F q = 0)"
  "(I_ds (lhs F) p = I_ds (rhs F) p) = (I_ds F p = 0)"
  by (simp_all add: lhs_def rhs_def)

lemma F_form_spec: "F_form dt = spec_bdf2_form dt"
  by (simp add: F_form_def spec_bdf2_form_def form_add_def form_smul_def dx_of_def
      samp_add_def samp_sub_def samp_smul_def)

lemma F1_form_euler: "dt \<noteq> 0 \<Longrightarrow> F1_form dt = form_smul dt (spec_euler_form dt)"
  by (simp add: F1_form_def spec_euler_form_def form_add_def form_smul_def dx_of_def
      samp_sub_def dot_def smul_def vsub_def algebra_simps)

lemma lhs_F_dx:
  "I_dx (lhs (F_form dt)) (p\<lparr>B0_at := x0, B1_at := x1, g_time := tt\<rparr>) = I_dx (lhs (F_form dt)) p"
  by (simp add: lhs_def F_form_def form_add_def form_smul_def dx_of_def dS_of_def ds_of_def
      samp_add_def samp_sub_def samp_smul_def BForm_def BForm_F1_def BForm_F2_def Let_def
      dot_def smul_def vsub_def vadd_def zero_samp_def u_expr_def g_expr_def algebra_simps)

lemma lhs_F_ds:
  "I_ds (lhs (F_form dt)) (p\<lparr>B0_at := x0, B1_at := x1, g_time := tt\<rparr>) = I_ds (lhs (F_form dt)) p"
  by (simp add: lhs_def F_form_def form_add_def form_smul_def dx_of_def dS_of_def ds_of_def
      samp_add_def samp_sub_def samp_smul_def BForm_def BForm_F1_def BForm_F2_def Let_def
      dot_def smul_def vsub_def vadd_def zero_samp_def u_expr_def g_expr_def Cross_def Curl_def
      algebra_simps)

lemma lhs_F_dS:
  "I_dS (lhs (F_form dt)) (\<lambda>s. (q s)\<lparr>B0_at := x0 s, B1_at := x1 s, g_time := tt s\<rparr>) = I_dS (lhs (F_form dt)) q"
  by (simp add: lhs_def F_form_def form_add_def form_smul_def dx_of_def dS_of_def ds_of_def
      samp_add_def samp_sub_def samp_smul_def BForm_def BForm_F1_def BForm_F2_def Let_def
      avg_def avg_v_def jump_def
      dot_def smul_def vsub_def vadd_def zero_samp_def u_expr_def g_expr_def Cross_def Curl_def
      algebra_simps)

section \<open>Lemmas about the time integrator\<close>

lemma steady_step_Inr: "itsave \<noteq> 0 \<Longrightarrow> steady_step K A itsave dt L s = Inr (advance K A itsave dt L s)"
  by (simp add: advance_def steady_step_def Let_def)

lemma advance_t: "itsave \<noteq> 0 \<Longrightarrow> t (advance K A itsave dt L s) = t s + dt"
  by (simp add: advance_def steady_step_def Let_def)

lemma advance_it: "itsave \<noteq> 0 \<Longrightarrow> it (advance K A itsave dt L s) = it s + 1"
  by (simp add: advance_def steady_step_def Let_def)

lemma advance_calls:
  "itsave \<noteq> 0 \<Longrightarrow> calls (advance K A itsave dt L s) = calls s @ [Ev_assemble_vector L, Ev_lu_solve]"
  by (simp add: advance_def steady_step_def Let_def)

lemma advance_fsol_every:
  "fsol (advance K A 1 dt L s) = fsol s @ [B2 (advance K A 1 dt L s)]"
  by (simp add: advance_def steady_step_def Let_def)

lemma advance_fsol_none:
  "itsave \<noteq> 0 \<Longrightarrow> (it s + 1) mod itsave \<noteq> 0 \<Longrightarrow> fsol (advance K A itsave dt L s) = fsol s"
  by (simp add: advance_def steady_step_def Let_def)

lemma advances_t:
  "itsave \<noteq> 0 \<Longrightarrow> t ((advance K A itsave dt L ^^ k) s) = t s + real k * dt"
  by (induction k) (simp_all add: advance_t algebra_simps)

lemma advances_it:
  "itsave \<noteq> 0 \<Longrightarrow> it ((advance K A itsave dt L ^^ k) s) = it s + int k"
  by (induction k) (simp_all add: advance_it)

lemma advances_calls:
  "itsave \<noteq> 0 \<Longrightarrow> calls ((advance K A itsave dt L ^^ k) s)
     = calls s @ concat (replicate k [Ev_assemble_vector L, Ev_lu_solve])"
proof (induction k)
  case 0
  then show ?case by simp
next
  case (Suc k)
  have "concat (replicate k [Ev_assemble_vector L, Ev_lu_solve]) @ [Ev_assemble_vector L, Ev_lu_solve]
        = concat (replicate (Suc k) [Ev_assemble_vector L, Ev_lu_solve])"
    by (metis concat.simps(2) concat_append concat.simps(1) append_Nil2 replicate_Suc replicate_append_same)
  with Suc show ?case by (simp add: advance_calls del: replicate_Suc)
qed

lemma advances_fsol_every:
  "length (fsol ((advance K A 1 dt L ^^ k) s)) = length (fsol s) + k"
  by (induction k) (simp_all add: advance_fsol_every)

lemma advances_fsol_none:
  assumes "0 < itsave" "0 \<le> it s" "it s + int k < itsave"
  shows "fsol ((advance K A itsave dt L ^^ k) s) = fsol s"
  using assms
proof (induction k)
  case 0
  then show ?case by simp
next
  case (Suc k)
  have nz: "itsave \<noteq> 0" using Suc.prems by simp
  have "it ((advance K A itsave dt L ^^ k) s) + 1 = it s + int k + 1"
    by (simp add: advances_it nz)
  moreover have "(it s + int k + 1) mod itsave \<noteq> 0"
    using Suc.prems by simp
  ultimately have "fsol ((advance K A itsave dt L ^^ Suc k) s) = fsol ((advance K A itsave dt L ^^ k) s)"
    by (simp add: advance_fsol_none nz)
  with Suc show ?case by simp
qed

lemma steady_loop_run:
  assumes "itsave \<noteq> 0"
    and "\<forall>j<k. t s + real j * dt < T"
    and "\<not> t s + real k * dt < T"
  shows "steady_loop K A itsave dt L s = Some (Inr ((advance K A itsave dt L ^^ k) s))"
  using assms(2,3)
proof (induction k arbitrary: s)
  case 0
  then show ?case by (simp add: steady_loop.simps)
next
  case (Suc k)
  let ?s' = "advance K A itsave dt L s"
  have lt: "t s < T" using Suc.prems(1) by force
  have a: "\<forall>j<k. t ?s' + real j * dt < T"
  proof (intro allI impI)
    fix j assume "j < k"
    then have "t s + real (Suc j) * dt < T" using Suc.prems(1) by blast
    then show "t ?s' + real j * dt < T"
      by (simp add: advance_t assms(1) algebra_simps)
  qed
  have b: "\<not> t ?s' + real k * dt < T"
    using Suc.prems(2) by (simp add: advance_t assms(1) algebra_simps)
  have "steady_loop K A itsave dt L s = steady_loop K A itsave dt L ?s'"
    using lt by (subst steady_loop.simps) (simp add: steady_step_Inr assms(1))
  also have "\<dots> = Some (Inr ((advance K A itsave dt L ^^ k) ?s'))"
    using Suc.IH [OF a b] .
  finally show ?case by (simp add: funpow_swap1)
qed

lemma T_pos: "0 < T"
  by (simp add: T_def)

lemma pi_ge_3: "3 \<le> pi"
proof -
  have "sin (pi / 6) \<le> pi / 6" by (rule sin_x_le_x) simp
  then show ?thesis by (simp add: sin_30)
qed

lemma N_steps_floor: "0 < np \<Longrightarrow> N_steps np = \<lfloor>T * real_of_int np\<rfloor>"
  using T_pos by (simp add: N_steps_def py_int_def Let_def)

lemma N_steps_ge_1: assumes "0 < np" shows "1 \<le> N_steps np"
proof -
  have "1 \<le> real_of_int np" using assms by simp
  moreover have "1 \<le> T" using pi_ge_two by (simp add: T_def)
  ultimately have "1 * 1 \<le> T * real_of_int np"
    by (intro mult_mono) simp_all
  then have "1 \<le> \<lfloor>T * real_of_int np\<rfloor>" by linarith
  then show ?thesis by (simp add: N_steps_floor assms)
qed

lemma N_dt: "0 < np \<Longrightarrow> real_of_int (N_steps np) * dt_of np = T"
  using N_steps_ge_1 [of np] by (simp add: dt_of_def)

lemma dt_of_pos: assumes "0 < np" shows "0 < dt_of np"
proof -
  have "0 < real_of_int (N_steps np)" using N_steps_ge_1 [OF assms] by simp
  then show ?thesis using T_pos by (simp add: dt_of_def)
qed

lemma N_steps_1: "N_steps 1 = 1"
proof -
  have "\<lfloor>T * 1\<rfloor> = 1" using pi_ge_two pi_less_4 by (simp add: T_def floor_eq_iff)
  then show ?thesis using N_steps_floor [of 1] by simp
qed

lemma N_steps_2: "N_steps 2 = 3"
proof -
  have "\<lfloor>T * 2\<rfloor> = 3" using pi_ge_3 pi_less_4 by (simp add: T_def floor_eq_iff)
  then show ?thesis using N_steps_floor [of 2] by simp
qed

lemma round_T: "round (T / (0.5 * (2.0 / real_of_int 1))) = 2"
proof -
  have "\<lfloor>pi / 2 + 1 / 2\<rfloor> = 2" using pi_ge_3 pi_less_4 by (simp add: floor_eq_iff)
  then show ?thesis by (simp add: T_def round_def)
qed

lemma bootstrap_t: "t (bootstrap K dt s) = t s + dt"
  by (simp add: bootstrap_def Let_def)

lemma begin_steady_t: "t (snd (begin_steady K a s)) = t s"
  by (simp add: begin_steady_def)

lemma initial_t: "t (initial_state K) = 0"
  by (simp add: initial_state_def Let_def)

lemma time_stepping_run:
  assumes "0 < np" "itsave \<noteq> 0"
  shows "time_stepping fem degree np itsave =
     Some (Inr ((advance (fem degree np)
                   (fst (begin_steady (fem degree np) (lhs (F_form (dt_of np)))
                          (bootstrap (fem degree np) (dt_of np) (initial_state (fem degree np)))))
                   itsave (dt_of np) (rhs (F_form (dt_of np)))
                 ^^ nat (N_steps np - 1))
                (snd (begin_steady (fem degree np) (lhs (F_form (dt_of np)))
                          (bootstrap (fem degree np) (dt_of np) (initial_state (fem degree np)))))))"
proof -
  let ?K = "fem degree np"
  let ?dt = "dt_of np"
  let ?st = "begin_steady ?K (lhs (F_form ?dt)) (bootstrap ?K ?dt (initial_state ?K))"
  let ?k = "nat (N_steps np - 1)"
  have N1: "1 \<le> N_steps np" using assms(1) by (rule N_steps_ge_1)
  have Npos: "0 < real_of_int (N_steps np)" using N1 by simp
  have t0: "t (snd ?st) = ?dt"
    by (simp add: begin_steady_t bootstrap_t initial_t)
  have dtN: "?dt = T / real_of_int (N_steps np)" by (simp add: dt_of_def)
  have k: "real ?k = real_of_int (N_steps np) - 1" using N1 by simp
  have a: "\<forall>j<?k. t (snd ?st) + real j * ?dt < T"
  proof (intro allI impI)
    fix j assume "j < ?k"
    then have "real j < real ?k" by simp
    then have "real j + 1 < real_of_int (N_steps np)" using k by linarith
    then have "(real j + 1) * (T / real_of_int (N_steps np))
        < real_of_int (N_steps np) * (T / real_of_int (N_steps np))"
      using T_pos Npos by (intro mult_strict_right_mono) simp_all
    also have "\<dots> = T" using Npos by simp
    finally have "(real j + 1) * ?dt < T" by (simp only: dtN)
    moreover have "t (snd ?st) + real j * ?dt = (real j + 1) * ?dt"
      by (simp add: t0 algebra_simps)
    ultimately show "t (snd ?st) + real j * ?dt < T" by simp
  qed
  have "t (snd ?st) + real ?k * ?dt = real_of_int (N_steps np) * ?dt"
    by (simp add: t0 k algebra_simps)
  also have "\<dots> = T" using assms(1) by (rule N_dt)
  finally have b: "\<not> t (snd ?st) + real ?k * ?dt < T" by simp
  have "steady_loop ?K (fst ?st) itsave ?dt (rhs (F_form ?dt)) (snd ?st)
        = Some (Inr ((advance ?K (fst ?st) itsave ?dt (rhs (F_form ?dt)) ^^ ?k) (snd ?st)))"
    using assms(2) a b by (rule steady_loop_run)
  moreover have "time_stepping fem degree np itsave
        = steady_loop ?K (fst ?st) itsave ?dt (rhs (F_form ?dt)) (snd ?st)"
    using assms(1) N1 by (simp add: time_stepping_def Let_def case_prod_beta)
  ultimately show ?thesis by simp
qed

lemma count_steady: "count P (concat (replicate k es)) = k * count P es"
  by (induction k) (simp_all add: count_def)

lemma count_append: "count P (xs @ ys) = count P xs + count P ys"
  by (simp add: count_def)

lemma bootstrap_initial:
  "bootstrap K dt (initial_state K) =
     \<lparr>B0 = lib_interpolate K 0, B1 = lib_solve K (lhs (F1_form dt)) (rhs (F1_form dt))
                                         (lib_interpolate K 0) (lib_Function K) dt,
      B2 = lib_interpolate K 0, g_t = dt, it = 1, t = dt, fsol = [lib_interpolate K 0],
      calls = [Ev_solve (lhs (F1_form dt)) (rhs (F1_form dt))]\<rparr>"
  by (simp add: bootstrap_def initial_state_def Let_def)

lemma begin_steady_fields:
  "it (snd (begin_steady K a s)) = it s"
  "fsol (snd (begin_steady K a s)) = fsol s"
  "calls (snd (begin_steady K a s)) = calls s @ [Ev_assemble_matrix a, Ev_LUSolver, Ev_reuse_factorization True]"
  "fst (begin_steady K a s) = lib_assemble_matrix K a (B0 s) (B1 s) (g_t s)"
  "B0 (snd (begin_steady K a s)) = B0 s"
  "B1 (snd (begin_steady K a s)) = B1 s"
  "g_t (snd (begin_steady K a s)) = g_t s"
  by (simp_all add: begin_steady_def)

lemma run_calls:
  assumes "0 < np" "itsave \<noteq> 0"
  shows "\<exists>s. time_stepping fem degree np itsave = Some (Inr s)
    \<and> calls s = [Ev_solve (lhs (F1_form (dt_of np))) (rhs (F1_form (dt_of np))),
                 Ev_assemble_matrix (lhs (F_form (dt_of np))), Ev_LUSolver,
                 Ev_reuse_factorization True]
                @ concat (replicate (nat (N_steps np - 1))
                            [Ev_assemble_vector (rhs (F_form (dt_of np))), Ev_lu_solve])
    \<and> it s = N_steps np \<and> t s = T"
proof -
  have N1: "1 \<le> N_steps np" using assms(1) by (rule N_steps_ge_1)
  have "real (nat (N_steps np - 1)) * dt_of np = real_of_int (N_steps np) * dt_of np - dt_of np"
    using N1 by (simp add: algebra_simps)
  then have "dt_of np + real (nat (N_steps np - 1)) * dt_of np = T"
    using N_dt [OF assms(1)] by simp
  then show ?thesis
    using N1 by (simp add: time_stepping_run [OF assms] advances_calls advances_it advances_t assms(2)
        begin_steady_fields begin_steady_t bootstrap_initial)
qed

lemma run_fsol_every:
  assumes "0 < np"
  shows "snapshot_count fem degree np 1 = Some (Inr (nat (N_steps np)))"
proof -
  have N1: "1 \<le> N_steps np" using assms(1) by (rule N_steps_ge_1)
  have "(1::int) \<noteq> 0" by simp
  from time_stepping_run [OF assms this, of fem degree] N1 show ?thesis
    by (simp add: snapshot_count_def advances_fsol_every begin_steady_fields bootstrap_initial nat_diff_distrib)
qed

lemma run_fsol_none:
  assumes "0 < np" "0 < itsave" "N_steps np < itsave"
  shows "\<exists>s. time_stepping fem degree np itsave = Some (Inr s)
     \<and> fsol s = [lib_interpolate (fem degree np) 0]"
proof -
  have N1: "1 \<le> N_steps np" using assms(1) by (rule N_steps_ge_1)
  have nz: "itsave \<noteq> 0" using assms(2) by simp
  let ?K = "fem degree np"
  let ?st = "begin_steady ?K (lhs (F_form (dt_of np))) (bootstrap ?K (dt_of np) (initial_state ?K))"
  have "fsol ((advance ?K (fst ?st) itsave (dt_of np) (rhs (F_form (dt_of np))) ^^ nat (N_steps np - 1)) (snd ?st))
        = fsol (snd ?st)"
    using assms N1 by (intro advances_fsol_none) (simp_all add: begin_steady_fields bootstrap_initial)
  then show ?thesis
    by (simp add: time_stepping_run [OF assms(1) nz] begin_steady_fields bootstrap_initial)
qed

lemma advance_B2:
  "itsave \<noteq> 0 \<Longrightarrow> B2 (advance K A itsave dt L s)
     = lib_lu_solve K A (lib_assemble_vector K L (B0 s) (B1 s) (t s + dt))"
  by (simp add: advance_def steady_step_def Let_def)

lemma entry_calls:
  "calls (snd (begin_steady K (lhs (F_form dt)) (bootstrap K dt (initial_state K))))
     = [Ev_solve (lhs (F1_form dt)) (rhs (F1_form dt)),
        Ev_assemble_matrix (lhs (F_form dt)), Ev_LUSolver, Ev_reuse_factorization True]"
  by (simp add: begin_steady_fields bootstrap_initial)


text \<open>
  In exact arithmetic the run is left after \<open>N - 1\<close> steady steps with \<open>t = T\<close> and
  \<open>it = N\<close>: the recomputed \<open>dt = T/N\<close> makes \<open>N\<close> steps span \<open>T\<close>.
\<close>

lemma exact_run_reaches_T:
  assumes "0 < np" "itsave \<noteq> 0"
  shows "\<exists>s s1. time_stepping fem degree np itsave = Some (Inr s)
    \<and> t s1 = dt_of np \<and> it s1 = 1
    \<and> s = (advance (fem degree np)
              (lib_assemble_matrix (fem degree np) (lhs (F_form (dt_of np))) (B0 s1) (B1 s1) (g_t s1))
              itsave (dt_of np) (rhs (F_form (dt_of np))) ^^ nat (N_steps np - 1)) s1
    \<and> (\<forall>A L k s'. t ((advance (fem degree np) A itsave (dt_of np) L ^^ k) s')
                     = t s' + real k * dt_of np)
    \<and> count is_lu_solve (calls s) = nat (N_steps np - 1)
    \<and> real_of_int (N_steps np) * dt_of np = T
    \<and> t s = T \<and> \<not> t s < T \<and> it s = N_steps np"
proof -
  let ?K = "fem degree np"
  let ?dt = "dt_of np"
  let ?st = "begin_steady ?K (lhs (F_form ?dt)) (bootstrap ?K ?dt (initial_state ?K))"
  let ?s = "(advance ?K (fst ?st) itsave ?dt (rhs (F_form ?dt)) ^^ nat (N_steps np - 1)) (snd ?st)"
  have run: "time_stepping fem degree np itsave = Some (Inr ?s)"
    using assms by (rule time_stepping_run)
  obtain s' where s': "time_stepping fem degree np itsave = Some (Inr s')"
    "calls s' = [Ev_solve (lhs (F1_form ?dt)) (rhs (F1_form ?dt)),
                 Ev_assemble_matrix (lhs (F_form ?dt)), Ev_LUSolver, Ev_reuse_factorization True]
                @ concat (replicate (nat (N_steps np - 1))
                            [Ev_assemble_vector (rhs (F_form ?dt)), Ev_lu_solve])"
    "it s' = N_steps np" "t s' = T"
    using run_calls [OF assms, of fem degree] by blast
  have eq: "s' = ?s" using run s'(1) by simp
  have c: "count is_lu_solve (calls s') = nat (N_steps np - 1)"
    unfolding s'(2) count_append count_steady by (simp add: count_def)
  have t1: "t (snd ?st) = ?dt" by (simp add: begin_steady_fields begin_steady_t bootstrap_initial)
  have i1: "it (snd ?st) = 1" by (simp add: begin_steady_fields bootstrap_initial)
  have A: "?s = (advance ?K (lib_assemble_matrix ?K (lhs (F_form ?dt)) (B0 (snd ?st)) (B1 (snd ?st))
                  (g_t (snd ?st))) itsave ?dt (rhs (F_form ?dt)) ^^ nat (N_steps np - 1)) (snd ?st)"
    by (simp add: begin_steady_fields)
  have acc: "\<forall>A L k s'. t ((advance ?K A itsave ?dt L ^^ k) s') = t s' + real k * ?dt"
    using assms(2) by (simp add: advances_t)
  have nlt: "\<not> t ?s < T" using s'(4) unfolding eq by simp
  show ?thesis
    apply (rule exI [of _ ?s])
    apply (rule exI [of _ "snd ?st"])
    apply (intro conjI)
            apply (rule run)
           apply (rule t1)
          apply (rule i1)
         apply (rule A)
        apply (rule acc)
       apply (rule c [unfolded eq])
      apply (rule N_dt [OF assms(1)])
     apply (rule s'(4) [unfolded eq])
     apply (rule nlt)
    apply (rule s'(3) [unfolded eq])
    done
qed

section \<open>Lemmas about the time accounting in binary64\<close>

lemma b64_eval:
  assumes "2 powi e \<le> \<bar>x\<bar>" "\<bar>x\<bar> < 2 powi (e + 1)"
  shows "b64 x = of_int (rne (x / 2 powi (e - 52))) * 2 powi (e - 52)"
proof -
  have pos: "0 < \<bar>x\<bar>" using assms(1) by (smt (verit) zero_less_power_int)
  have a: "(2::real) powr (real_of_int e) = 2 powi e"
    by (rule powr_real_of_int') simp_all
  have b: "(2::real) powr (real_of_int (e + 1)) = 2 powi (e + 1)"
    by (rule powr_real_of_int') simp_all
  have "2 powr (real_of_int e) \<le> \<bar>x\<bar> \<and> \<bar>x\<bar> < 2 powr (real_of_int e + 1)"
    using assms a b by simp
  then have "\<lfloor>log 2 \<bar>x\<bar>\<rfloor> = e"
    using pos by (subst floor_log_eq_powr_iff) simp_all
  then show ?thesis using pos by (simp add: b64_def Let_def)
qed

lemma T_double_val: "T_double = 884279719003555 / 2 ^ 49"
  unfolding T_double_def fmul_def pi_double_def
  by (subst b64_eval [where e = 0]) (simp_all add: rne_def Let_def power_int_minus)

lemma fl_N_steps_4: "fl_N_steps 4 = 6"
proof -
  have a: "b64 (real_of_int 4) = 4"
    by (subst b64_eval [where e = 2]) (simp_all add: rne_def Let_def power_int_minus)
  have h: "fdiv 2.0 4 = 1 / 2"
    unfolding fdiv_def
    by (subst b64_eval [where e = "- 1"]) (simp_all add: rne_def Let_def power_int_minus)
  have d: "fmul 0.5 (1 / 2) = 1 / 4"
    unfolding fmul_def
    by (subst b64_eval [where e = "- 2"]) (simp_all add: rne_def Let_def power_int_minus)
  have q: "fdiv T_double (1 / 4) = 884279719003555 / 2 ^ 47"
    unfolding fdiv_def T_double_val
    by (subst b64_eval [where e = 2]) (simp_all add: rne_def Let_def power_int_minus)
  have "py_int (884279719003555 / 2 ^ 47) = 6"
    by (simp add: py_int_def)
  then show ?thesis
    unfolding fl_N_steps_def Let_def a h d q .
qed

lemma fl_dt_of_4: "fl_dt_of 4 = 4716158501352293 / 2 ^ 54"
proof -
  have a: "b64 (real_of_int 6) = 6"
    by (subst b64_eval [where e = 2]) (simp_all add: rne_def Let_def power_int_minus)
  show ?thesis
    unfolding fl_dt_of_def fl_N_steps_4 a fdiv_def T_double_val
    by (subst b64_eval [where e = "- 2"]) (simp_all add: rne_def Let_def power_int_minus)
qed

lemma fl_run_4: "fl_time_stepping 4 = Some (Inr (7, 515829836085407 / 2 ^ 48))"
proof -
  let ?dt = "4716158501352293 / 2 ^ 54 :: real"
  have a1: "fadd 0.0 ?dt = 4716158501352293 / 2 ^ 54"
    unfolding fadd_def
    by (subst b64_eval [where e = "- 2"]) (simp_all add: rne_def Let_def power_int_minus)
  have a2: "fadd (4716158501352293 / 2 ^ 54) ?dt = 4716158501352293 / 2 ^ 53"
    unfolding fadd_def
    by (subst b64_eval [where e = "- 1"]) (simp_all add: rne_def Let_def power_int_minus)
  have a3: "fadd (4716158501352293 / 2 ^ 53) ?dt = 884279719003555 / 2 ^ 50"
    unfolding fadd_def
    by (subst b64_eval [where e = "- 1"]) (simp_all add: rne_def Let_def power_int_minus)
  have a4: "fadd (884279719003555 / 2 ^ 50) ?dt = 4716158501352293 / 2 ^ 52"
    unfolding fadd_def
    by (subst b64_eval [where e = 0]) (simp_all add: rne_def Let_def power_int_minus)
  have a5: "fadd (4716158501352293 / 2 ^ 52) ?dt = 2947599063345183 / 2 ^ 51"
    unfolding fadd_def
    by (subst b64_eval [where e = 0]) (simp_all add: rne_def Let_def power_int_minus)
  have a6: "fadd (2947599063345183 / 2 ^ 51) ?dt = 7074237752028439 / 2 ^ 52"
    unfolding fadd_def
    by (subst b64_eval [where e = 0]) (simp_all add: rne_def Let_def power_int_minus)
  have a7: "fadd (7074237752028439 / 2 ^ 52) ?dt = 515829836085407 / 2 ^ 48"
    unfolding fadd_def
    by (subst b64_eval [where e = 0]) (simp_all add: rne_def Let_def power_int_minus)
  have l2: "fl_loop ?dt (1, 4716158501352293 / 2 ^ 54) = fl_loop ?dt (2, 4716158501352293 / 2 ^ 53)"
    by (subst fl_loop.simps, unfold fst_conv snd_conv a2) (simp add: T_double_val)
  have l3: "fl_loop ?dt (2, 4716158501352293 / 2 ^ 53) = fl_loop ?dt (3, 884279719003555 / 2 ^ 50)"
    by (subst fl_loop.simps, unfold fst_conv snd_conv a3) (simp add: T_double_val)
  have l4: "fl_loop ?dt (3, 884279719003555 / 2 ^ 50) = fl_loop ?dt (4, 4716158501352293 / 2 ^ 52)"
    by (subst fl_loop.simps, unfold fst_conv snd_conv a4) (simp add: T_double_val)
  have l5: "fl_loop ?dt (4, 4716158501352293 / 2 ^ 52) = fl_loop ?dt (5, 2947599063345183 / 2 ^ 51)"
    by (subst fl_loop.simps, unfold fst_conv snd_conv a5) (simp add: T_double_val)
  have l6: "fl_loop ?dt (5, 2947599063345183 / 2 ^ 51) = fl_loop ?dt (6, 7074237752028439 / 2 ^ 52)"
    by (subst fl_loop.simps, unfold fst_conv snd_conv a6) (simp add: T_double_val)
  have l7: "fl_loop ?dt (6, 7074237752028439 / 2 ^ 52) = fl_loop ?dt (7, 515829836085407 / 2 ^ 48)"
    by (subst fl_loop.simps, unfold fst_conv snd_conv a7) (simp add: T_double_val)
  have l8: "fl_loop ?dt (7, 515829836085407 / 2 ^ 48) = Some (7, 515829836085407 / 2 ^ 48)"
    by (subst fl_loop.simps) (simp add: T_double_val)
  have "fl_loop ?dt (1, 4716158501352293 / 2 ^ 54) = Some (7, 515829836085407 / 2 ^ 48)"
    unfolding l2 l3 l4 l5 l6 l7 l8 ..
  then show ?thesis
    unfolding fl_time_stepping_def Let_def fl_N_steps_4 fl_dt_of_4 fst_conv snd_conv a1
    by simp
qed

section \<open>Lemmas about the convergence driver\<close>

lemma solve_induction_run:
  assumes "0 < np" "itsave \<noteq> 0"
  shows "\<exists>r. solve_induction fem degree np itsave = Some (Inr r)"
  using time_stepping_run [OF assms, of fem degree]
  by (simp add: solve_induction_def Let_def)

lemma solve_induction_const:
  assumes "0 < np" "itsave \<noteq> 0"
  shows "solve_induction const_fem degree np itsave = Some (Inr (1, 1))"
  using time_stepping_run [OF assms, of const_fem degree]
  by (simp add: solve_induction_def Let_def const_fem_def)

lemma sweep_run:
  assumes "itsave \<noteq> 0"
  shows "\<forall>np\<in>set Ns. 0 < np \<Longrightarrow>
    \<exists>recs. sweep fem degree Ns itsave = Some (Inr recs) \<and> length recs = length Ns
      \<and> (\<forall>m<length Ns. solve_induction fem degree (Ns ! m) itsave = Some (Inr (recs ! m)))"
proof (induction Ns)
  case Nil
  then show ?case by simp
next
  case (Cons np nps)
  then have "0 < np" by simp
  then obtain r where r: "solve_induction fem degree np itsave = Some (Inr r)"
    using solve_induction_run assms by blast
  from Cons obtain rs where rs: "sweep fem degree nps itsave = Some (Inr rs)"
    "length rs = length nps"
    "\<forall>m<length nps. solve_induction fem degree (nps ! m) itsave = Some (Inr (rs ! m))"
    by auto
  have "\<forall>m<length (np # nps). solve_induction fem degree ((np # nps) ! m) itsave = Some (Inr ((r # rs) ! m))"
    using r rs(3) by (auto simp add: nth_Cons split: nat.splits)
  then show ?case using r rs(1,2) by simp
qed

lemma collect_all_Inr: "collect (map (\<lambda>x. Inr (f x)) xs) = Inr (map f xs)"
  by (induction xs) simp_all

lemma rate_of_pos: "0 < a \<Longrightarrow> 0 < b \<Longrightarrow> rate_of a b = Inr (Rate (log 2 (a / b)))"
  by (simp add: rate_of_def Let_def log_def not_le)

lemma rate_pair_pos:
  assumes "\<forall>r\<in>set recs. 0 < fst r \<and> 0 < snd r" "m + 1 < length recs"
  shows "rate_pair recs m = Inr (Rate (log 2 (snd (recs ! m) / snd (recs ! (m + 1)))),
                                 Rate (log 2 (fst (recs ! m) / fst (recs ! (m + 1)))))"
proof -
  have "recs ! m \<in> set recs" "recs ! (m + 1) \<in> set recs" using assms(2) by simp_all
  then have "0 < fst (recs ! m)" "0 < snd (recs ! m)" "0 < fst (recs ! (m + 1))" "0 < snd (recs ! (m + 1))"
    using assms(1) by blast+
  then show ?thesis by (simp add: rate_pair_def rate_of_pos)
qed

lemma rates_of_pos:
  assumes "\<forall>r\<in>set recs. 0 < fst r \<and> 0 < snd r"
  shows "rates_of recs = Inr (map (\<lambda>m. (Rate (log 2 (snd (recs ! m) / snd (recs ! (m + 1)))),
                                          Rate (log 2 (fst (recs ! m) / fst (recs ! (m + 1))))))
                                 [0..<length recs - 1])"
proof -
  have "map (rate_pair recs) [0..<length recs - 1]
      = map (\<lambda>m. Inr (Rate (log 2 (snd (recs ! m) / snd (recs ! (m + 1)))),
                        Rate (log 2 (fst (recs ! m) / fst (recs ! (m + 1))))))
            [0..<length recs - 1]"
    using assms by (intro map_cong refl rate_pair_pos) auto
  then have "rates_of recs
      = collect (map (\<lambda>m. Inr (Rate (log 2 (snd (recs ! m) / snd (recs ! (m + 1)))),
                                 Rate (log 2 (fst (recs ! m) / fst (recs ! (m + 1))))))
                     [0..<length recs - 1])"
    by (simp only: rates_of_def)
  then show ?thesis by (simp only: collect_all_Inr)
qed

lemma rates_of_single: "length recs = 1 \<Longrightarrow> rates_of recs = Inr []"
  by (simp add: rates_of_def)


section \<open>The claims\<close>

text \<open>
  C1. For every field \<open>B\<close>, test function \<open>v\<close>, velocity \<open>u\<close>, boundary data \<open>g\<close>, normal
  \<open>n\<close> and mesh size \<open>h\<close>, the advective part \<open>F1\<close> of \<open>BForm\<close> is the reference
  expression: on interior facets the flux \<open>H\<close> with \<open>un\<^sup>+ = max(un,0)\<close> and
  \<open>un\<^sup>- = min(un,0)\<close> against the jump of \<open>v\<close>, plus the correction
  \<open>-2 (avg(u)\<cdot>avg(v)) avg(B\<cdot>n)\<close>; on exterior facets the flux \<open>Hb\<close> against \<open>v\<close>; in
  the cells the volume term; and \<open>BForm\<close> is this part plus the resistive part \<open>F2\<close>. The
  code's splitting, half of \<open>un + |un|\<close> and of \<open>un - |un|\<close>, is \<open>max\<close> and \<open>min\<close>.
\<close>

theorem C1_advective_flux:
  "I_dS (BForm_F1 B v u g n h) = spec_adv_dS B v u n
   \<and> I_ds (BForm_F1 B v u g n h) = spec_adv_ds B v u g n
   \<and> I_dx (BForm_F1 B v u g n h) = spec_adv_dx B v u
   \<and> BForm B v u g n h = form_add (BForm_F1 B v u g n h) (BForm_F2 B v u g n h)
   \<and> (\<forall>a::real. 0.5 * (a + \<bar>a\<bar>) = max a 0 \<and> 0.5 * (a - \<bar>a\<bar>) = min a 0)"
  using BForm_F1_dS [of B v u g n h] BForm_F1_ds [of B v u g n h] BForm_F1_dx [of B v u g n h]
  by (auto simp add: BForm_def upwind_plus upwind_minus)

text \<open>
  C2. A run on \<open>np \<ge> 1\<close> cells per side with a save interval other than 0 returns.
  The steady stage is entered with a log that holds, after the one bootstrap solve, one
  assembly of \<open>lhs F\<close> into the system matrix \<open>A\<close> and one construction of the LU solver
  with \<open>reuse_factorization\<close> set. The run ends after some number \<open>k\<close> of steady steps,
  and whatever that number is, every steady step from that state is a step of
  \<open>steady_step\<close> with this one matrix \<open>A\<close>: its \<open>B2\<close> is the solution with \<open>A\<close> of the
  right-hand side assembled from \<open>rhs F\<close> with the fields and the time it finds, and it
  adds to the log one assembly of \<open>rhs F\<close> and one solve, never a matrix assembly. \<open>F\<close>
  is the BDF2 form \<open>inner(B - 4/3 B1 + 1/3 B0, v) + (2/3) dt BForm(B,v,u,g,n,h)\<close>, and its
  trial-dependent part \<open>lhs F\<close> does not depend on the history fields or on the time of
  the boundary data.
\<close>

theorem C2_bdf2_system:
  assumes "0 < np" "itsave \<noteq> 0"
  shows "\<exists>A s2 k.
      A = lib_assemble_matrix (fem degree np) (lhs (F_form (dt_of np))) (B0 s2) (B1 s2) (g_t s2)
    \<and> calls s2 = [Ev_solve (lhs (F1_form (dt_of np))) (rhs (F1_form (dt_of np))),
                  Ev_assemble_matrix (lhs (F_form (dt_of np))), Ev_LUSolver,
                  Ev_reuse_factorization True]
    \<and> time_stepping fem degree np itsave
        = Some (Inr ((advance (fem degree np) A itsave (dt_of np) (rhs (F_form (dt_of np))) ^^ k) s2))
    \<and> (\<forall>j. steady_step (fem degree np) A itsave (dt_of np) (rhs (F_form (dt_of np)))
               ((advance (fem degree np) A itsave (dt_of np) (rhs (F_form (dt_of np))) ^^ j) s2)
             = Inr ((advance (fem degree np) A itsave (dt_of np) (rhs (F_form (dt_of np))) ^^ Suc j) s2))
    \<and> (\<forall>j. B2 ((advance (fem degree np) A itsave (dt_of np) (rhs (F_form (dt_of np))) ^^ Suc j) s2)
             = lib_lu_solve (fem degree np) A
                 (lib_assemble_vector (fem degree np) (rhs (F_form (dt_of np)))
                    (B0 ((advance (fem degree np) A itsave (dt_of np) (rhs (F_form (dt_of np))) ^^ j) s2))
                    (B1 ((advance (fem degree np) A itsave (dt_of np) (rhs (F_form (dt_of np))) ^^ j) s2))
                    (t ((advance (fem degree np) A itsave (dt_of np) (rhs (F_form (dt_of np))) ^^ j) s2)
                       + dt_of np)))
    \<and> (\<forall>j. calls ((advance (fem degree np) A itsave (dt_of np) (rhs (F_form (dt_of np))) ^^ j) s2)
             = calls s2 @ concat (replicate j [Ev_assemble_vector (rhs (F_form (dt_of np))), Ev_lu_solve]))
    \<and> F_form (dt_of np) = spec_bdf2_form (dt_of np)
    \<and> (\<forall>p x0 x1 tm. I_dx (lhs (F_form (dt_of np))) (p\<lparr>B0_at := x0, B1_at := x1, g_time := tm\<rparr>)
                      = I_dx (lhs (F_form (dt_of np))) p)
    \<and> (\<forall>q x0 x1 tm. I_dS (lhs (F_form (dt_of np)))
                        (\<lambda>sd. (q sd)\<lparr>B0_at := x0 sd, B1_at := x1 sd, g_time := tm sd\<rparr>)
                      = I_dS (lhs (F_form (dt_of np))) q)
    \<and> (\<forall>p x0 x1 tm. I_ds (lhs (F_form (dt_of np))) (p\<lparr>B0_at := x0, B1_at := x1, g_time := tm\<rparr>)
                      = I_ds (lhs (F_form (dt_of np))) p)"
proof -
  let ?K = "fem degree np"
  let ?dt = "dt_of np"
  let ?L = "rhs (F_form ?dt)"
  let ?st = "begin_steady ?K (lhs (F_form ?dt)) (bootstrap ?K ?dt (initial_state ?K))"
  let ?adv = "advance ?K (fst ?st) itsave ?dt ?L"
  have run: "time_stepping fem degree np itsave = Some (Inr ((?adv ^^ nat (N_steps np - 1)) (snd ?st)))"
    using assms by (rule time_stepping_run)
  have A: "fst ?st = lib_assemble_matrix ?K (lhs (F_form ?dt)) (B0 (snd ?st)) (B1 (snd ?st)) (g_t (snd ?st))"
    by (simp add: begin_steady_fields)
  have step: "\<forall>j. steady_step ?K (fst ?st) itsave ?dt ?L ((?adv ^^ j) (snd ?st))
                  = Inr ((?adv ^^ Suc j) (snd ?st))"
    using assms(2) by (simp add: steady_step_Inr)
  have solve: "\<forall>j. B2 ((?adv ^^ Suc j) (snd ?st))
        = lib_lu_solve ?K (fst ?st)
            (lib_assemble_vector ?K ?L (B0 ((?adv ^^ j) (snd ?st))) (B1 ((?adv ^^ j) (snd ?st)))
               (t ((?adv ^^ j) (snd ?st)) + ?dt))"
    using assms(2) by (simp add: advance_B2)
  have log: "\<forall>j. calls ((?adv ^^ j) (snd ?st))
        = calls (snd ?st) @ concat (replicate j [Ev_assemble_vector ?L, Ev_lu_solve])"
    using assms(2) by (simp add: advances_calls)
  show ?thesis
    apply (rule exI [of _ "fst ?st"])
    apply (rule exI [of _ "snd ?st"])
    apply (rule exI [of _ "nat (N_steps np - 1)"])
    apply (intro conjI)
             apply (rule A)
            apply (rule entry_calls)
           apply (rule run)
          apply (rule step)
         apply (rule solve)
        apply (rule log)
       apply (rule F_form_spec)
      apply (intro allI, rule lhs_F_dx)
     apply (intro allI, rule lhs_F_dS)
    apply (intro allI, rule lhs_F_ds)
    done
qed

theorem C2_bdf2_system_witness:
  "\<exists>A s2 k.
      A = lib_assemble_matrix (const_fem 1 2) (lhs (F_form (dt_of 2))) (B0 s2) (B1 s2) (g_t s2)
    \<and> calls s2 = [Ev_solve (lhs (F1_form (dt_of 2))) (rhs (F1_form (dt_of 2))),
                  Ev_assemble_matrix (lhs (F_form (dt_of 2))), Ev_LUSolver,
                  Ev_reuse_factorization True]
    \<and> time_stepping const_fem 1 2 1
        = Some (Inr ((advance (const_fem 1 2) A 1 (dt_of 2) (rhs (F_form (dt_of 2))) ^^ k) s2))
    \<and> (\<forall>j. steady_step (const_fem 1 2) A 1 (dt_of 2) (rhs (F_form (dt_of 2)))
               ((advance (const_fem 1 2) A 1 (dt_of 2) (rhs (F_form (dt_of 2))) ^^ j) s2)
             = Inr ((advance (const_fem 1 2) A 1 (dt_of 2) (rhs (F_form (dt_of 2))) ^^ Suc j) s2))
    \<and> (\<forall>j. B2 ((advance (const_fem 1 2) A 1 (dt_of 2) (rhs (F_form (dt_of 2))) ^^ Suc j) s2)
             = lib_lu_solve (const_fem 1 2) A
                 (lib_assemble_vector (const_fem 1 2) (rhs (F_form (dt_of 2)))
                    (B0 ((advance (const_fem 1 2) A 1 (dt_of 2) (rhs (F_form (dt_of 2))) ^^ j) s2))
                    (B1 ((advance (const_fem 1 2) A 1 (dt_of 2) (rhs (F_form (dt_of 2))) ^^ j) s2))
                    (t ((advance (const_fem 1 2) A 1 (dt_of 2) (rhs (F_form (dt_of 2))) ^^ j) s2)
                       + dt_of 2)))
    \<and> (\<forall>j. calls ((advance (const_fem 1 2) A 1 (dt_of 2) (rhs (F_form (dt_of 2))) ^^ j) s2)
             = calls s2 @ concat (replicate j [Ev_assemble_vector (rhs (F_form (dt_of 2))), Ev_lu_solve]))
    \<and> F_form (dt_of 2) = spec_bdf2_form (dt_of 2)
    \<and> (\<forall>p x0 x1 tm. I_dx (lhs (F_form (dt_of 2))) (p\<lparr>B0_at := x0, B1_at := x1, g_time := tm\<rparr>)
                      = I_dx (lhs (F_form (dt_of 2))) p)
    \<and> (\<forall>q x0 x1 tm. I_dS (lhs (F_form (dt_of 2)))
                        (\<lambda>sd. (q sd)\<lparr>B0_at := x0 sd, B1_at := x1 sd, g_time := tm sd\<rparr>)
                      = I_dS (lhs (F_form (dt_of 2))) q)
    \<and> (\<forall>p x0 x1 tm. I_ds (lhs (F_form (dt_of 2))) (p\<lparr>B0_at := x0, B1_at := x1, g_time := tm\<rparr>)
                      = I_ds (lhs (F_form (dt_of 2))) p)"
proof -
  have a: "0 < (2::int)" by simp
  have b: "(1::int) \<noteq> 0" by simp
  show ?thesis by (rule C2_bdf2_system [OF a b])
qed

text \<open>
  C3, as the code has it. For every resolution \<open>np \<ge> 1\<close>, with \<open>T = \<pi>/2\<close>, \<open>h = 2/np\<close> and
  the first guess \<open>0.5 h\<close>, the step count is \<open>N = int(T/(0.5 (2/np)))\<close>, the quotient
  truncated (its floor, the quotient being positive), not rounded; \<open>N \<ge> 1\<close>; and \<open>dt\<close> is
  then \<open>T/N\<close>, so that \<open>N dt = T\<close>.
\<close>

theorem C3_step_count:
  assumes "0 < np"
  shows "N_steps np = py_int (T / (0.5 * (2.0 / real_of_int np)))
    \<and> N_steps np = \<lfloor>T / (0.5 * (2.0 / real_of_int np))\<rfloor>
    \<and> 1 \<le> N_steps np
    \<and> dt_of np = T / real_of_int (N_steps np)
    \<and> real_of_int (N_steps np) * dt_of np = T
    \<and> T = pi / 2"
proof -
  have q: "T / (0.5 * (2.0 / real_of_int np)) = T * real_of_int np"
    using assms by simp
  have 1: "N_steps np = py_int (T / (0.5 * (2.0 / real_of_int np)))"
    by (simp add: N_steps_def Let_def)
  have 2: "N_steps np = \<lfloor>T / (0.5 * (2.0 / real_of_int np))\<rfloor>"
    unfolding q using assms by (rule N_steps_floor)
  have 3: "1 \<le> N_steps np" using assms by (rule N_steps_ge_1)
  have 4: "dt_of np = T / real_of_int (N_steps np)" by (simp add: dt_of_def)
  have 5: "real_of_int (N_steps np) * dt_of np = T" using assms by (rule N_dt)
  have 6: "T = pi / 2" by (simp add: T_def)
  show ?thesis using 1 2 3 4 5 6 by blast
qed

theorem C3_step_count_witness:
  "N_steps 1 = py_int (T / (0.5 * (2.0 / real_of_int 1)))
    \<and> N_steps 1 = \<lfloor>T / (0.5 * (2.0 / real_of_int 1))\<rfloor>
    \<and> 1 \<le> N_steps 1
    \<and> dt_of 1 = T / real_of_int (N_steps 1)
    \<and> real_of_int (N_steps 1) * dt_of 1 = T
    \<and> T = pi / 2"
proof -
  have a: "0 < (1::int)" by simp
  show ?thesis by (rule C3_step_count [OF a])
qed

text \<open>
  C3, as the claim states it, fails: for \<open>np = 1\<close> the code's step count is 1, and
  \<open>round(T/(0.5 (2/np)))\<close> is 2.
\<close>

theorem C3_round_counterexample:
  "N_steps 1 = 1 \<and> round (T / (0.5 * (2.0 / real_of_int 1))) = (2::int)
   \<and> N_steps 1 \<noteq> round (T / (0.5 * (2.0 / real_of_int 1)))"
  using N_steps_1 round_T by simp



text \<open>
  C5. The bootstrap stage is one implicit Euler step. From the initial state it sets the
  time of the boundary data to \<open>dt\<close>, makes one call of the library's \<open>solve\<close> on
  \<open>lhs F1 = rhs F1\<close>, assembles no system matrix and builds no LU solver, and leaves
  \<open>it = 1\<close> and \<open>t = dt\<close>. \<open>dt\<close> is positive, \<open>F1\<close> is \<open>dt\<close> times the form of
  \<open>(B1 - B0)/dt + BForm(B1,\<cdot>) = 0\<close>, and the system solved holds at a point exactly when
  that form vanishes there. The whole run makes this call once.
\<close>

theorem C5_bootstrap:
  assumes "0 < np" "itsave \<noteq> 0"
  shows "0 < dt_of np
    \<and> bootstrap (fem degree np) (dt_of np) (initial_state (fem degree np)) =
        \<lparr>B0 = lib_interpolate (fem degree np) 0,
         B1 = lib_solve (fem degree np) (lhs (F1_form (dt_of np))) (rhs (F1_form (dt_of np)))
                (lib_interpolate (fem degree np) 0) (lib_Function (fem degree np)) (dt_of np),
         B2 = lib_interpolate (fem degree np) 0, g_t = dt_of np, it = 1, t = dt_of np,
         fsol = [lib_interpolate (fem degree np) 0],
         calls = [Ev_solve (lhs (F1_form (dt_of np))) (rhs (F1_form (dt_of np)))]\<rparr>
    \<and> F1_form (dt_of np) = form_smul (dt_of np) (spec_euler_form (dt_of np))
    \<and> (\<forall>p. (I_dx (lhs (F1_form (dt_of np))) p = I_dx (rhs (F1_form (dt_of np))) p)
             = (I_dx (spec_euler_form (dt_of np)) p = 0))
    \<and> (\<forall>q. (I_dS (lhs (F1_form (dt_of np))) q = I_dS (rhs (F1_form (dt_of np))) q)
             = (I_dS (spec_euler_form (dt_of np)) q = 0))
    \<and> (\<forall>p. (I_ds (lhs (F1_form (dt_of np))) p = I_ds (rhs (F1_form (dt_of np))) p)
             = (I_ds (spec_euler_form (dt_of np)) p = 0))
    \<and> (\<exists>s. time_stepping fem degree np itsave = Some (Inr s) \<and> count is_solve (calls s) = 1)"
proof -
  have pos: "0 < dt_of np" using assms(1) by (rule dt_of_pos)
  then have nz: "dt_of np \<noteq> 0" by simp
  have F1: "F1_form (dt_of np) = form_smul (dt_of np) (spec_euler_form (dt_of np))"
    using nz by (rule F1_form_euler)
  have dx: "\<forall>p. (I_dx (lhs (F1_form (dt_of np))) p = I_dx (rhs (F1_form (dt_of np))) p)
             = (I_dx (spec_euler_form (dt_of np)) p = 0)"
    unfolding lhs_eq_rhs(1) by (subst F1) (simp add: form_smul_def nz)
  have dS: "\<forall>q. (I_dS (lhs (F1_form (dt_of np))) q = I_dS (rhs (F1_form (dt_of np))) q)
             = (I_dS (spec_euler_form (dt_of np)) q = 0)"
    unfolding lhs_eq_rhs(2) by (subst F1) (simp add: form_smul_def nz)
  have ds: "\<forall>p. (I_ds (lhs (F1_form (dt_of np))) p = I_ds (rhs (F1_form (dt_of np))) p)
             = (I_ds (spec_euler_form (dt_of np)) p = 0)"
    unfolding lhs_eq_rhs(3) by (subst F1) (simp add: form_smul_def nz)
  obtain s where s: "time_stepping fem degree np itsave = Some (Inr s)"
    "calls s = [Ev_solve (lhs (F1_form (dt_of np))) (rhs (F1_form (dt_of np))),
                 Ev_assemble_matrix (lhs (F_form (dt_of np))), Ev_LUSolver,
                 Ev_reuse_factorization True]
                @ concat (replicate (nat (N_steps np - 1))
                            [Ev_assemble_vector (rhs (F_form (dt_of np))), Ev_lu_solve])"
    using run_calls [OF assms, of fem degree] by blast
  have "count is_solve (calls s) = 1"
    unfolding s(2) count_append count_steady by (simp add: count_def)
  then have once: "\<exists>s. time_stepping fem degree np itsave = Some (Inr s) \<and> count is_solve (calls s) = 1"
    using s(1) by blast
  show ?thesis
    apply (intro conjI)
          apply (rule pos)
         apply (rule bootstrap_initial)
        apply (rule F1)
       apply (rule dx)
      apply (rule dS)
     apply (rule ds)
    apply (rule once)
    done
qed

theorem C5_bootstrap_witness:
  "0 < dt_of 2
    \<and> bootstrap (const_fem 1 2) (dt_of 2) (initial_state (const_fem 1 2)) =
        \<lparr>B0 = lib_interpolate (const_fem 1 2) 0,
         B1 = lib_solve (const_fem 1 2) (lhs (F1_form (dt_of 2))) (rhs (F1_form (dt_of 2)))
                (lib_interpolate (const_fem 1 2) 0) (lib_Function (const_fem 1 2)) (dt_of 2),
         B2 = lib_interpolate (const_fem 1 2) 0, g_t = dt_of 2, it = 1, t = dt_of 2,
         fsol = [lib_interpolate (const_fem 1 2) 0],
         calls = [Ev_solve (lhs (F1_form (dt_of 2))) (rhs (F1_form (dt_of 2)))]\<rparr>
    \<and> F1_form (dt_of 2) = form_smul (dt_of 2) (spec_euler_form (dt_of 2))
    \<and> (\<forall>p. (I_dx (lhs (F1_form (dt_of 2))) p = I_dx (rhs (F1_form (dt_of 2))) p)
             = (I_dx (spec_euler_form (dt_of 2)) p = 0))
    \<and> (\<forall>q. (I_dS (lhs (F1_form (dt_of 2))) q = I_dS (rhs (F1_form (dt_of 2))) q)
             = (I_dS (spec_euler_form (dt_of 2)) q = 0))
    \<and> (\<forall>p. (I_ds (lhs (F1_form (dt_of 2))) p = I_ds (rhs (F1_form (dt_of 2))) p)
             = (I_ds (spec_euler_form (dt_of 2)) p = 0))
    \<and> (\<exists>s. time_stepping const_fem 1 2 1 = Some (Inr s) \<and> count is_solve (calls s) = 1)"
proof -
  have a: "0 < (2::int)" by simp
  have b: "(1::int) \<noteq> 0" by simp
  show ?thesis by (rule C5_bootstrap [OF a b])
qed

text \<open>
  C6. In binary64, the arithmetic of the program, the run on 4 cells per side computes
  \<open>N = 6\<close> steps, and the loop guarded by \<open>t < T\<close> makes 6 steady steps after the
  bootstrap step, not 5: the time accumulated over 6 steps is still below \<open>T\<close>, so the
  loop runs once more, and the run ends with \<open>it = 7\<close> and \<open>t\<close> beyond \<open>T\<close>.
\<close>

theorem C6_double_loop_overshoots:
  "fl_N_steps 4 = 6
   \<and> fl_time_stepping 4 = Some (Inr (7, 515829836085407 / 2 ^ 48))
   \<and> T_double = 884279719003555 / 2 ^ 49
   \<and> T_double < 515829836085407 / 2 ^ 48"
  using fl_N_steps_4 fl_run_4 T_double_val by simp

text \<open>
  C7. A steady step that returns has shifted the history by one position: the new \<open>B1\<close>
  is the \<open>B2\<close> the step produced, the solution with the matrix \<open>A\<close> of the right-hand
  side assembled from the fields before the step at time \<open>t + dt\<close>, and the new \<open>B0\<close> is
  the \<open>B1\<close> held before the step.
\<close>

theorem C7_history_shift:
  assumes "steady_step K A itsave dt L s = Inr s'"
  shows "B1 s' = B2 s' \<and> B0 s' = B1 s
    \<and> B2 s' = lib_lu_solve K A (lib_assemble_vector K L (B0 s) (B1 s) (t s + dt))"
  using assms by (auto simp add: steady_step_def Let_def split: if_splits)

theorem C7_history_shift_witness:
  "\<exists>s'. steady_step (const_fem 1 2) 1 1 1 (rhs (F_form 1)) (initial_state (const_fem 1 2)) = Inr s'
     \<and> B1 s' = B2 s' \<and> B0 s' = B1 (initial_state (const_fem 1 2))
     \<and> B2 s' = lib_lu_solve (const_fem 1 2) 1
                  (lib_assemble_vector (const_fem 1 2) (rhs (F_form 1))
                     (B0 (initial_state (const_fem 1 2))) (B1 (initial_state (const_fem 1 2)))
                     (t (initial_state (const_fem 1 2)) + 1))"
proof -
  have e: "steady_step (const_fem 1 2) 1 1 1 (rhs (F_form 1)) (initial_state (const_fem 1 2))
           = Inr (advance (const_fem 1 2) 1 1 1 (rhs (F_form 1)) (initial_state (const_fem 1 2)))"
    by (rule steady_step_Inr) simp
  show ?thesis using e C7_history_shift [OF e] by blast
qed

text \<open>
  C8. With save interval 1 the solution file does not hold \<open>N + 1\<close> snapshots: the result
  of the bootstrap step is never written. On 2 cells per side the run takes \<open>N = 3\<close> steps
  and writes 3 snapshots, and on 1 cell per side it takes 1 step and writes 1 snapshot.
\<close>

theorem C8_snapshots_save_every_step:
  "N_steps 2 = 3 \<and> snapshot_count const_fem 1 2 1 = Some (Inr 3)
   \<and> N_steps 1 = 1 \<and> snapshot_count const_fem 1 1 1 = Some (Inr 1)"
proof -
  have "snapshot_count const_fem 1 2 1 = Some (Inr (nat (N_steps 2)))"
    by (rule run_fsol_every) simp
  moreover have "snapshot_count const_fem 1 1 1 = Some (Inr (nat (N_steps 1)))"
    by (rule run_fsol_every) simp
  ultimately show ?thesis by (simp add: N_steps_1 N_steps_2)
qed

text \<open>
  C9. For a nonempty list of resolutions, each at least 1, and a save interval other than
  0, the driver runs every resolution to completion in the given order: the records are
  the results of \<open>solve_induction\<close> on the resolutions, position by position. When the
  errors recorded are positive, the program completes with exactly \<open>k - 1\<close> rate pairs, the
  pair at \<open>m\<close> being \<open>log2(err_l2[m]/err_l2[m+1])\<close> and \<open>log2(div_l2[m]/div_l2[m+1])\<close>. For one
  resolution it completes with no rate pair.
\<close>

theorem C9_convergence_driver:
  assumes "Ns \<noteq> []" "\<forall>np\<in>set Ns. 0 < np" "save_interval s \<noteq> 0"
  shows "\<exists>recs. sweep fem degree Ns (save_interval s) = Some (Inr recs)
     \<and> length recs = length Ns
     \<and> (\<forall>m<length Ns. solve_induction fem degree (Ns ! m) (save_interval s) = Some (Inr (recs ! m)))
     \<and> (length Ns = 1 \<longrightarrow> main fem degree Ns s = Some (Inr (recs, [])))
     \<and> ((\<forall>r\<in>set recs. 0 < fst r \<and> 0 < snd r) \<longrightarrow>
          (\<exists>rates. main fem degree Ns s = Some (Inr (recs, rates))
             \<and> length rates = length Ns - 1
             \<and> (\<forall>m<length Ns - 1.
                   rates ! m = (Rate (log 2 (snd (recs ! m) / snd (recs ! (m + 1)))),
                                Rate (log 2 (fst (recs ! m) / fst (recs ! (m + 1))))))))"
proof -
  obtain recs where recs: "sweep fem degree Ns (save_interval s) = Some (Inr recs)"
    "length recs = length Ns"
    "\<forall>m<length Ns. solve_induction fem degree (Ns ! m) (save_interval s) = Some (Inr (recs ! m))"
    using sweep_run [OF assms(3) assms(2)] by blast
  have one: "length Ns = 1 \<longrightarrow> main fem degree Ns s = Some (Inr (recs, []))"
    using recs(1,2) assms(1) by (simp add: main_def rates_of_single)
  have pos: "(\<forall>r\<in>set recs. 0 < fst r \<and> 0 < snd r) \<longrightarrow>
          (\<exists>rates. main fem degree Ns s = Some (Inr (recs, rates))
             \<and> length rates = length Ns - 1
             \<and> (\<forall>m<length Ns - 1.
                   rates ! m = (Rate (log 2 (snd (recs ! m) / snd (recs ! (m + 1)))),
                                Rate (log 2 (fst (recs ! m) / fst (recs ! (m + 1)))))))"
  proof
    assume p: "\<forall>r\<in>set recs. 0 < fst r \<and> 0 < snd r"
    let ?rates = "map (\<lambda>m. (Rate (log 2 (snd (recs ! m) / snd (recs ! (m + 1)))),
                             Rate (log 2 (fst (recs ! m) / fst (recs ! (m + 1))))))
                      [0..<length recs - 1]"
    have "main fem degree Ns s = Some (Inr (recs, ?rates))"
      using recs(1) assms(1) rates_of_pos [OF p] by (simp add: main_def)
    moreover have "length ?rates = length Ns - 1" using recs(2) by simp
    moreover have "\<forall>m<length Ns - 1. ?rates ! m = (Rate (log 2 (snd (recs ! m) / snd (recs ! (m + 1)))),
                                Rate (log 2 (fst (recs ! m) / fst (recs ! (m + 1)))))"
      using recs(2) by simp
    ultimately show "\<exists>rates. main fem degree Ns s = Some (Inr (recs, rates))
             \<and> length rates = length Ns - 1
             \<and> (\<forall>m<length Ns - 1.
                   rates ! m = (Rate (log 2 (snd (recs ! m) / snd (recs ! (m + 1)))),
                                Rate (log 2 (fst (recs ! m) / fst (recs ! (m + 1))))))"
      by blast
  qed
  show ?thesis using recs one pos by blast
qed

theorem C9_convergence_driver_witness:
  "main const_fem 1 [1, 2] (Some 1) = Some (Inr ([(1, 1), (1, 1)], [(Rate 0, Rate 0)]))"
proof -
  have a: "[1, 2] \<noteq> ([]::int list)" by simp
  have b: "\<forall>np\<in>set [1, 2::int]. 0 < np" by simp
  have c: "save_interval (Some 1) \<noteq> 0" by (simp add: save_interval_def)
  obtain recs where recs: "length recs = length [1, 2::int]"
    "\<forall>m<length [1, 2::int]. solve_induction const_fem 1 ([1, 2] ! m) (save_interval (Some 1))
        = Some (Inr (recs ! m))"
    "(\<forall>r\<in>set recs. 0 < fst r \<and> 0 < snd r) \<longrightarrow>
       (\<exists>rates. main const_fem 1 [1, 2] (Some 1) = Some (Inr (recs, rates))
          \<and> length rates = length [1, 2::int] - 1
          \<and> (\<forall>m<length [1, 2::int] - 1.
                rates ! m = (Rate (log 2 (snd (recs ! m) / snd (recs ! (m + 1)))),
                             Rate (log 2 (fst (recs ! m) / fst (recs ! (m + 1)))))))"
    using C9_convergence_driver [OF a b c, of const_fem 1] by blast
  have r0: "recs ! 0 = (1, 1)"
    using recs(2) [rule_format, of 0] solve_induction_const [of 1 1 1]
    by (simp add: save_interval_def)
  have r1: "recs ! 1 = (1, 1)"
    using recs(2) [rule_format, of 1] solve_induction_const [of 2 1 1]
    by (simp add: save_interval_def)
  have rs: "recs = [(1, 1), (1, 1)]"
    using recs(1) r0 r1 by (intro nth_equalityI) (auto simp add: less_Suc_eq)
  then obtain rates where rates: "main const_fem 1 [1, 2] (Some 1) = Some (Inr (recs, rates))"
    "length rates = 1" "rates ! 0 = (Rate 0, Rate 0)"
    using recs(3) by auto
  have "rates = [(Rate 0, Rate 0)]"
    using rates(2,3) by (intro nth_equalityI) auto
  then show ?thesis using rates(1) rs by simp
qed

text \<open>
  C10. When the option \<open>-s\<close> is omitted the save interval is 1000000. For every run on
  \<open>np \<ge> 1\<close> cells per side whose step count \<open>N\<close> is below 1000000, no step number from 2 to
  \<open>N\<close> is a multiple of the interval, the run returns, and the solution file holds exactly
  one snapshot, the initial condition.
\<close>

theorem C10_default_save_interval:
  assumes "0 < np" "N_steps np < 1000000"
  shows "save_interval None = 1000000
    \<and> (\<forall>i. 2 \<le> i \<and> i \<le> N_steps np \<longrightarrow> i mod save_interval None \<noteq> 0)
    \<and> (\<exists>s. time_stepping fem degree np (save_interval None) = Some (Inr s)
           \<and> fsol s = [lib_interpolate (fem degree np) 0])
    \<and> snapshot_count fem degree np (save_interval None) = Some (Inr 1)"
proof -
  have d: "save_interval None = 1000000" by (simp add: save_interval_def)
  have m: "\<forall>i. 2 \<le> i \<and> i \<le> N_steps np \<longrightarrow> i mod save_interval None \<noteq> 0"
    using assms(2) unfolding d by auto
  have r: "\<exists>s. time_stepping fem degree np (save_interval None) = Some (Inr s)
           \<and> fsol s = [lib_interpolate (fem degree np) 0]"
    unfolding d using assms by (intro run_fsol_none) simp_all
  then have c: "snapshot_count fem degree np (save_interval None) = Some (Inr 1)"
    by (auto simp add: snapshot_count_def)
  show ?thesis using d m r c by blast
qed

theorem C10_default_save_interval_witness:
  "save_interval None = 1000000
    \<and> N_steps 2 = 3
    \<and> (2::int) mod save_interval None \<noteq> 0
    \<and> (3::int) mod save_interval None \<noteq> 0
    \<and> (\<exists>s. time_stepping const_fem 1 2 (save_interval None) = Some (Inr s)
           \<and> fsol s = [lib_interpolate (const_fem 1 2) 0])
    \<and> snapshot_count const_fem 1 2 (save_interval None) = Some (Inr 1)"
proof -
  have a: "0 < (2::int)" by simp
  have b: "N_steps 2 < 1000000" by (simp add: N_steps_2)
  note th = C10_default_save_interval [OF a b, of const_fem 1]
  have d: "save_interval None = 1000000"
    by (rule th [THEN conjunct1])
  have m: "\<forall>i. 2 \<le> i \<and> i \<le> N_steps 2 \<longrightarrow> i mod save_interval None \<noteq> 0"
    by (rule th [THEN conjunct2, THEN conjunct1])
  have m2: "(2::int) mod save_interval None \<noteq> 0"
    using m [rule_format, of 2] by (simp add: N_steps_2)
  have m3: "(3::int) mod save_interval None \<noteq> 0"
    using m [rule_format, of 3] by (simp add: N_steps_2)
  have r: "\<exists>s. time_stepping const_fem 1 2 (save_interval None) = Some (Inr s)
           \<and> fsol s = [lib_interpolate (const_fem 1 2) 0]"
    by (rule th [THEN conjunct2, THEN conjunct2, THEN conjunct1])
  have c: "snapshot_count const_fem 1 2 (save_interval None) = Some (Inr 1)"
    by (rule th [THEN conjunct2, THEN conjunct2, THEN conjunct2])
  show ?thesis
    apply (intro conjI)
         apply (rule d)
        apply (rule N_steps_2)
       apply (rule m2)
      apply (rule m3)
     apply (rule r)
    apply (rule c)
    done
qed

end
